theory Spec2Isabelle
  imports Complex_Main
begin

section \<open>Values, arrays and errors\<close>

text \<open>
  A float64 cell is a real number or NaN (\<open>None\<close>); the cells of an input array are
  numbers or NaN. Rounding to the nearest double is not modelled: arithmetic is exact real
  arithmetic. Infinite values are held in two ways.
  \<^item> In the power transform, whose results are returned as they are, a result that is
    infinite (a division by zero, or a magnitude beyond the largest double) is \<open>None\<close>
    like NaN.
  \<^item> In the quantile and gamma transforms, every infinite value comes from a quantile
    function of the library or from the extrapolation, and passes through
    \<open>np.nan_to_num\<close> before an array is returned. It is held as the largest double of its
    sign, \<open>float_max\<close> or \<open>- float_max\<close>, which is the number that \<open>np.nan_to_num\<close>
    puts in its place; there \<open>None\<close> is NaN only.
\<close>

type_synonym fl = "real option"

text \<open>The largest double, 1.7976931348623157e308.\<close>

definition float_max :: real where
  "float_max = (2 ^ 53 - 1) * 2 ^ 971"

text \<open>A result of the power transform: beyond the largest double it is infinite.\<close>

definition fin :: "real \<Rightarrow> fl" where
  "fin r = (if \<bar>r\<bar> \<le> float_max then Some r else None)"

datatype ndarray = Arr1 "fl list" | Arr2 "fl list list" | Arr3 "fl list list list"

datatype error =
  ZeroDivisionError | KeyError | IndexError | ValueError | UnboundLocalError
  | TypeError | AttributeError | SystemExit

fun map_ndarray :: "(fl \<Rightarrow> fl) \<Rightarrow> ndarray \<Rightarrow> ndarray" where
  "map_ndarray f (Arr1 xs) = Arr1 (map f xs)"
| "map_ndarray f (Arr2 xss) = Arr2 (map (map f) xss)"
| "map_ndarray f (Arr3 xsss) = Arr3 (map (map (map f)) xsss)"

fun elems :: "ndarray \<Rightarrow> fl list" where
  "elems (Arr1 xs) = xs"
| "elems (Arr2 xss) = concat xss"
| "elems (Arr3 xsss) = concat (concat xsss)"

section \<open>Power transform\<close>

text \<open>\<open>data[data < lo] = lo\<close> on one cell; the comparison is false on NaN.\<close>

definition clamp_below :: "real \<Rightarrow> fl \<Rightarrow> fl" where
  "clamp_below lo v = (case v of None \<Rightarrow> None | Some x \<Rightarrow> if x < lo then Some lo else Some x)"

text \<open>
  numpy's \<open>x ** y\<close> on one cell: anything to the power 0 is 1 (NaN included), a positive
  base is \<open>powr\<close>, 0 to a positive power is 0 and to a negative power infinite, a negative
  base has a value only for an integral exponent; a power beyond the largest double is
  infinite.
\<close>

definition np_power :: "fl \<Rightarrow> real \<Rightarrow> fl" where
  "np_power v y =
     (if y = 0 then Some 1
      else case v of
        None \<Rightarrow> None
      | Some x \<Rightarrow>
          if 0 < x then fin (x powr y)
          else if x = 0 then (if 0 < y then Some 0 else None)
          else if y \<in> \<int> then fin ((if even \<lfloor>y\<rfloor> then 1 else - 1) * ((- x) powr y))
          else None)"

text \<open>
  \<open>(data ** (1 / texp) - 1) / (1 / texp)\<close> on one cell, with \<open>p = 1 / texp\<close>. The exponent
  is a Python number, so \<open>1 / texp\<close> raises for \<open>texp = 0\<close>.
\<close>

definition boxcox_cell :: "real \<Rightarrow> fl \<Rightarrow> fl" where
  "boxcox_cell p v = Option.bind (np_power v p) (\<lambda>w. fin ((w - 1) / p))"

text \<open>
  \<open>(data / texp + 1) ** texp\<close> on one cell; \<open>data / 0\<close> is NaN or infinite in numpy.
\<close>

definition boxcox_back_cell :: "real \<Rightarrow> fl \<Rightarrow> fl" where
  "boxcox_back_cell texp v =
     np_power (if texp = 0 then None else Option.bind v (\<lambda>x. fin (x / texp + 1))) texp"

definition boxcox_transform :: "ndarray \<Rightarrow> real \<Rightarrow> error + ndarray" where
  "boxcox_transform data texp =
     (let data = map_ndarray (clamp_below 0) data
      in if texp = 0 then Inl ZeroDivisionError
         else Inr (map_ndarray (boxcox_cell (1 / texp)) data))"

definition boxcox_back_transform :: "ndarray \<Rightarrow> real \<Rightarrow> error + ndarray" where
  "boxcox_back_transform data texp =
     (let data = map_ndarray (clamp_below (- texp)) data
      in Inr (map_ndarray (boxcox_back_cell texp) data))"

subsection \<open>The same two functions on a store of objects\<close>

text \<open>
  The caller's argument is a reference into a store. An object is a numpy array or a plain
  Python list; a new object is allocated at the end of the store.
\<close>

datatype pyobj = NdArray ndarray | PyList "fl list"

type_synonym heap = "pyobj list"

definition alloc :: "heap \<Rightarrow> pyobj \<Rightarrow> heap \<times> nat" where
  "alloc h obj = (h @ [obj], length h)"

text \<open>\<open>if not isinstance(data, np.ndarray): data = np.array(data)\<close>\<close>

definition as_ndarray :: "heap \<Rightarrow> nat \<Rightarrow> heap \<times> nat" where
  "as_ndarray h r = (case h ! r of NdArray a \<Rightarrow> (h, r) | PyList xs \<Rightarrow> alloc h (NdArray (Arr1 xs)))"

definition array_of :: "pyobj \<Rightarrow> ndarray" where
  "array_of obj = (case obj of NdArray a \<Rightarrow> a | PyList xs \<Rightarrow> Arr1 xs)"

text \<open>\<open>data = data.copy()\<close>\<close>

definition copy_array :: "heap \<Rightarrow> nat \<Rightarrow> heap \<times> nat" where
  "copy_array h r = alloc h (h ! r)"

text \<open>\<open>data[data < lo] = lo\<close>: writes into the object that \<open>r\<close> refers to.\<close>

definition masked_assign :: "heap \<Rightarrow> nat \<Rightarrow> real \<Rightarrow> heap" where
  "masked_assign h r lo = h[r := NdArray (map_ndarray (clamp_below lo) (array_of (h ! r)))]"

definition boxcox_transform_heap :: "heap \<Rightarrow> nat \<Rightarrow> real \<Rightarrow> heap \<times> (error + nat)" where
  "boxcox_transform_heap h data texp =
     (let (h, data) = as_ndarray h data;
          (h, data) = copy_array h data;
          h = masked_assign h data 0
      in if texp = 0 then (h, Inl ZeroDivisionError)
         else let (h, datat) = alloc h (NdArray (map_ndarray (boxcox_cell (1 / texp)) (array_of (h ! data))))
              in (h, Inr datat))"

definition boxcox_back_transform_heap :: "heap \<Rightarrow> nat \<Rightarrow> real \<Rightarrow> heap \<times> (error + nat)" where
  "boxcox_back_transform_heap h data texp =
     (let (h, data) = as_ndarray h data;
          (h, data) = copy_array h data;
          h = masked_assign h data (- texp);
          (h, datat) = alloc h (NdArray (map_ndarray (boxcox_back_cell texp) (array_of (h ! data))))
      in (h, Inr datat))"

section \<open>Empirical CDF builder\<close>

text \<open>A table is a data frame with the two columns \<open>Value\<close> and \<open>CDF\<close>.\<close>

record cdf_table =
  Value :: "real list"
  CDF :: "real list"

text \<open>\<open>data[data > 0]\<close>: NaN compares false and is dropped.\<close>

fun positive_values :: "fl list \<Rightarrow> real list" where
  "positive_values [] = []"
| "positive_values (None # vs) = positive_values vs"
| "positive_values (Some x # vs) = (if 0 < x then x # positive_values vs else positive_values vs)"

definition create_cdf_df :: "fl list \<Rightarrow> cdf_table" where
  "create_cdf_df data =
     (let valid_data = positive_values data;
          sorted_data = sort valid_data;
          cdf_values = map (\<lambda>k. real k / real (length sorted_data)) [1..<length sorted_data + 1]
      in \<lparr>Value = sorted_data, CDF = cdf_values\<rparr>)"

section \<open>Sparse-station remediation\<close>

text \<open>
  Per-station tables: a dictionary from the station label to a dictionary from the month
  to the table. A neighbour ranking holds station labels, which are integers.
\<close>

type_synonym station_cdfs = "int \<rightharpoonup> (nat \<rightharpoonup> cdf_table)"

fun efoldl :: "('s \<Rightarrow> 'a \<Rightarrow> error + 's) \<Rightarrow> 's \<Rightarrow> 'a list \<Rightarrow> error + 's" where
  "efoldl f s [] = Inr s"
| "efoldl f s (x # xs) = (case f s x of Inl e \<Rightarrow> Inl e | Inr s' \<Rightarrow> efoldl f s' xs)"

text \<open>\<open>cdfs[stn][i]\<close>\<close>

definition station_table :: "station_cdfs \<Rightarrow> int \<Rightarrow> nat \<Rightarrow> error + cdf_table" where
  "station_table cdfs stn i =
     (case cdfs stn of
        None \<Rightarrow> Inl KeyError
      | Some months \<Rightarrow> (case months i of None \<Rightarrow> Inl KeyError | Some tbl \<Rightarrow> Inr tbl))"

text \<open>\<open>cdfs[nearby_stations[stn_index][iteration]][i]\<close>\<close>

definition near_station_cdf ::
  "station_cdfs \<Rightarrow> int list list \<Rightarrow> nat \<Rightarrow> nat \<Rightarrow> nat \<Rightarrow> error + cdf_table" where
  "near_station_cdf cdfs nearby_stations stn_index i iteration =
     (if length nearby_stations \<le> stn_index then Inl IndexError
      else if length (nearby_stations ! stn_index) \<le> iteration then Inl IndexError
      else station_table cdfs (nearby_stations ! stn_index ! iteration) i)"

text \<open>
  The \<open>while\<close> loop of \<open>add_nearby_stations_to_cdfs\<close>, on its three variables
  \<open>station_cdf\<close>, \<open>num_obs\<close> and \<open>iteration\<close>; \<open>own\<close> is
  \<open>cdfs[stn_index][i]['Value'].values\<close>, read when \<open>iteration\<close> is 0. It returns the
  three variables as the loop leaves them.
\<close>

function pool_loop ::
  "station_cdfs \<Rightarrow> int list list \<Rightarrow> nat \<Rightarrow> nat \<Rightarrow> int \<Rightarrow> real list
     \<Rightarrow> real list \<Rightarrow> nat \<Rightarrow> nat \<Rightarrow> error + (real list \<times> nat \<times> nat)" where
  "pool_loop cdfs nearby_stations stn_index i min_obs own station_cdf num_obs iteration =
     (if int num_obs < min_obs \<and> iteration < 5 then
        (case near_station_cdf cdfs nearby_stations stn_index i iteration of
           Inl e \<Rightarrow> Inl e
         | Inr near \<Rightarrow>
             (let station_cdf = (if iteration = 0 then own else station_cdf);
                  station_cdf = station_cdf @ Value near
              in pool_loop cdfs nearby_stations stn_index i min_obs own
                   station_cdf (length station_cdf) (iteration + 1)))
      else Inr (station_cdf, num_obs, iteration))"
  by pat_completeness auto
termination
  by (relation "measure (\<lambda>(cdfs, nearby_stations, stn_index, i, min_obs, own, station_cdf, num_obs, iteration). 5 - iteration)")
    auto

declare pool_loop.simps [simp del]

text \<open>The body of the station loop for one station and one month.\<close>

definition remediate_station ::
  "int list list \<Rightarrow> int \<Rightarrow> nat \<Rightarrow> station_cdfs \<Rightarrow> nat \<Rightarrow> error + station_cdfs" where
  "remediate_station nearby_stations min_obs i cdfs stn_index =
     (case station_table cdfs (int stn_index) i of
        Inl e \<Rightarrow> Inl e
      | Inr tbl \<Rightarrow>
          (let num_obs = length (Value tbl)
           in if int num_obs < min_obs then
                (case pool_loop cdfs nearby_stations stn_index i min_obs (Value tbl) [] num_obs 0 of
                   Inl e \<Rightarrow> Inl e
                 | Inr (station_cdf, num_obs, iteration) \<Rightarrow>
                     Inr (cdfs(int stn_index \<mapsto>
                            (the (cdfs (int stn_index)))(i \<mapsto> create_cdf_df (map Some station_cdf)))))
              else Inr cdfs))"

text \<open>Stations with at least one value that is not NaN, in index order.\<close>

definition stations_with_values :: "fl list list \<Rightarrow> nat list" where
  "stations_with_values measured_var =
     filter (\<lambda>stn_index. \<exists>v \<in> set (measured_var ! stn_index). v \<noteq> None) [0..<length measured_var]"

text \<open>One pass of the month loop: the station loop for month \<open>i\<close>.\<close>

definition remediate_month ::
  "int list list \<Rightarrow> int \<Rightarrow> nat list \<Rightarrow> station_cdfs \<Rightarrow> nat \<Rightarrow> error + station_cdfs" where
  "remediate_month nearby_stations min_obs stations cdfs i =
     efoldl (remediate_station nearby_stations min_obs i) cdfs stations"

definition add_nearby_stations_to_cdfs ::
  "station_cdfs \<Rightarrow> fl list list \<Rightarrow> int list list \<Rightarrow> int \<Rightarrow> error + station_cdfs" where
  "add_nearby_stations_to_cdfs cdfs measured_var nearby_stations min_obs =
     efoldl (remediate_month nearby_stations min_obs (stations_with_values measured_var))
       cdfs [1..<13]"

text \<open>
  The claim's words, for comparison with the loop: the pool after \<open>k\<close> neighbours is the
  station's own values followed by the values of the first \<open>k\<close> neighbours in ranking
  order, and the loop stops at the first \<open>k\<close> that reaches the threshold, or at 5.
\<close>

definition pooled_values :: "real list \<Rightarrow> (nat \<Rightarrow> cdf_table) \<Rightarrow> nat \<Rightarrow> real list" where
  "pooled_values own nbr k = own @ concat (map (\<lambda>j. Value (nbr j)) [0..<k])"

definition pool_stop :: "real list \<Rightarrow> (nat \<Rightarrow> cdf_table) \<Rightarrow> int \<Rightarrow> nat \<Rightarrow> bool" where
  "pool_stop own nbr min_obs k \<longleftrightarrow>
     k \<le> 5 \<and> (\<forall>j<k. int (length (pooled_values own nbr j)) < min_obs)
     \<and> (k = 5 \<or> min_obs \<le> int (length (pooled_values own nbr k)))"

section \<open>Library functions and settings\<close>

text \<open>
  The distribution functions of scipy are parameters of the model: the standard normal
  quantile and distribution function, and the gamma distribution function and quantile
  with location 0 (argument, then shape, then scale). They are applied to one number and
  return a cell. The two distribution functions return a probability or NaN. A quantile
  that is infinite (at probability 1, and for the normal quantile at 0) is returned as
  \<open>float_max\<close> or \<open>- float_max\<close>.
\<close>

record scipy =
  norm_ppf :: "real \<Rightarrow> fl"
  norm_cdf :: "real \<Rightarrow> fl"
  gamma_cdf :: "real \<Rightarrow> real \<Rightarrow> real \<Rightarrow> fl"
  gamma_ppf :: "real \<Rightarrow> real \<Rightarrow> real \<Rightarrow> fl"

text \<open>
  \<open>np.clip(x, lo, hi)\<close> and \<open>np.nan_to_num(x, nan=c)\<close> on one cell. The latter puts \<open>c\<close>
  for NaN and the largest double of its sign for an infinite cell, which is the number
  that holds the infinite cell here, so that it leaves every number as it is.
\<close>

definition np_clip :: "real \<Rightarrow> real \<Rightarrow> fl \<Rightarrow> fl" where
  "np_clip lo hi v = map_option (\<lambda>x. min (max x lo) hi) v"

definition nan_to_num :: "real \<Rightarrow> fl \<Rightarrow> fl" where
  "nan_to_num c v = (case v of None \<Rightarrow> Some c | Some x \<Rightarrow> Some x)"

text \<open>
  \<open>interp1d(x, y, bounds_error=False)\<close>, linear: the points are sorted by \<open>x\<close> (a stable
  sort), a new \<open>x\<close> outside their range gives NaN, inside it is interpolated between the
  last point at or below it and the next one.
\<close>

fun interp_linear :: "(real \<times> real) list \<Rightarrow> real \<Rightarrow> fl" where
  "interp_linear [] x = None"
| "interp_linear [(x0, y0)] x = (if x = x0 then Some y0 else None)"
| "interp_linear ((x0, y0) # (x1, y1) # ps) x =
     (if x < x0 then None
      else if x < x1 then Some (if x = x0 then y0 else (y1 - y0) / (x1 - x0) * (x - x0) + y0)
      else interp_linear ((x1, y1) # ps) x)"

text \<open>
  \<open>cdf_interp = interp1d(empirical_cdf['Value'], empirical_cdf['CDF'], bounds_error=False)\<close>.
  This interpolation is done by \<open>np.interp\<close>, which for a table of one point returns the
  value of that point for every \<open>x\<close> that is neither below nor above it, NaN included,
  and NaN is not outside the range; with more points NaN gives NaN.
\<close>

definition cdf_interp :: "cdf_table \<Rightarrow> fl \<Rightarrow> fl" where
  "cdf_interp empirical_cdf v =
     (let pts = sort_key fst (zip (Value empirical_cdf) (CDF empirical_cdf))
      in case v of
           None \<Rightarrow> (case pts of [(x0, y0)] \<Rightarrow> Some y0 | _ \<Rightarrow> None)
         | Some x \<Rightarrow> interp_linear pts x)"

text \<open>
  \<open>interp1d(x, y, kind='linear', bounds_error=False, fill_value='extrapolate')\<close>: the
  segment is chosen by \<open>searchsorted\<close> (the number of points with a smaller \<open>x\<close>), clipped
  to \<open>1 .. n - 1\<close>, and its line is followed also outside the range. Two points with the
  same \<open>x\<close> give a division by zero: the slope is NaN when their \<open>y\<close> are equal too (as
  for a single point, taken twice), and infinite otherwise, and the infinite slope times
  \<open>x_new - x_lo\<close> is NaN at 0 and infinite elsewhere.
\<close>

definition interp_extrapolate :: "(real \<times> real) list \<Rightarrow> real \<Rightarrow> fl" where
  "interp_extrapolate pts x =
     (let n = length pts;
          i = length (filter (\<lambda>p. fst p < x) pts);
          hi = min (max i 1) (n - 1);
          lo = (if hi = 0 then n - 1 else hi - 1);
          x_lo = fst (pts ! lo); x_hi = fst (pts ! hi);
          y_lo = snd (pts ! lo); y_hi = snd (pts ! hi)
      in if n = 0 then None
         else if x_hi = x_lo then
           (if y_hi = y_lo \<or> x = x_lo then None
            else if (y_lo < y_hi) = (x_lo < x) then Some float_max else Some (- float_max))
         else Some ((y_hi - y_lo) / (x_hi - x_lo) * (x - x_lo) + y_lo))"

text \<open>\<open>value_interp = interp1d(empirical_cdf['CDF'], empirical_cdf['Value'], ...)\<close>\<close>

definition value_interp :: "cdf_table \<Rightarrow> fl \<Rightarrow> fl" where
  "value_interp empirical_cdf v =
     (case v of
        None \<Rightarrow> None
      | Some p \<Rightarrow> interp_extrapolate (sort_key fst (zip (CDF empirical_cdf) (Value empirical_cdf))) p)"

text \<open>The settings dictionary: a key that is absent is \<open>None\<close>.\<close>

record settings =
  pooled :: "bool option"
  min_num_obs :: "int option"
  add_noise :: "bool option"
  min_z_value :: "real option"
  min_est_value :: "real option"
  exponent :: "real option"
  interp_method :: "string option"

text \<open>\<open>settings.get(key, default)\<close>\<close>

definition get_default :: "'a \<Rightarrow> 'a option \<Rightarrow> 'a" where
  "get_default d v = (case v of None \<Rightarrow> d | Some x \<Rightarrow> x)"

text \<open>
  The tables handed to the transforms: one per month (pooled), or one per station and
  month.
\<close>

datatype monthly_cdfs = PooledCdfs "nat \<rightharpoonup> cdf_table" | StationCdfs station_cdfs

text \<open>
  \<open>monthly_cdfs.get(month)\<close>, followed by the test \<open>empirical_cdf.empty\<close>, which a
  dictionary does not have.
\<close>

definition pooled_cdf :: "monthly_cdfs \<Rightarrow> nat \<Rightarrow> error + cdf_table option" where
  "pooled_cdf monthly_cdfs month =
     (case monthly_cdfs of
        PooledCdfs m \<Rightarrow> Inr (m month)
      | StationCdfs m \<Rightarrow> (case m (int month) of None \<Rightarrow> Inr None | Some d \<Rightarrow> Inl AttributeError))"

text \<open>
  \<open>monthly_cdfs[station][month]\<close>; on the tables of the pooled mode the second lookup
  asks a table for a column named by the month.
\<close>

definition station_cdf :: "monthly_cdfs \<Rightarrow> nat \<Rightarrow> nat \<Rightarrow> error + cdf_table" where
  "station_cdf monthly_cdfs station month =
     (case monthly_cdfs of
        PooledCdfs m \<Rightarrow> Inl KeyError
      | StationCdfs m \<Rightarrow> station_table m (int station) month)"

section \<open>Data frames\<close>

text \<open>
  The time index is given by the month (1 to 12) of each timestamp, the only attribute
  that the transforms read. A frame is the list of its rows, one row per timestamp and
  one cell per column; a frame without rows carries no column count.
\<close>

type_synonym frame = "fl list list"

text \<open>
  \<open>pd.DataFrame(data.T, index=times)\<close>, as the list of its columns: a 2-D array has one
  column per station, a 1-D array is one column, a 3-D array is refused, and so is a
  column whose length is not the number of timestamps.
\<close>

definition data_frame :: "ndarray \<Rightarrow> nat list \<Rightarrow> error + fl list list" where
  "data_frame data times' =
     (case data of
        Arr1 xs \<Rightarrow> if length xs = length times' then Inr [xs] else Inl ValueError
      | Arr2 cols \<Rightarrow>
          if list_all (\<lambda>col. length col = length times') cols then Inr cols else Inl ValueError
      | Arr3 g \<Rightarrow> Inl ValueError)"

definition frame_of_columns :: "nat \<Rightarrow> fl list list \<Rightarrow> frame" where
  "frame_of_columns nt cols = map (\<lambda>t. map (\<lambda>col. col ! t) cols) [0..<nt]"

text \<open>\<open>pd.DataFrame(index=..., columns=...)\<close>: every cell is NaN.\<close>

definition nan_frame :: "nat \<Rightarrow> nat \<Rightarrow> frame" where
  "nan_frame nt nc = replicate nt (replicate nc None)"

text \<open>
  \<open>frame.loc[rows, columns] = values\<close>: \<open>sel t j\<close> says whether the cell of row \<open>t\<close> and
  column \<open>j\<close> is among the selected ones, and \<open>val t j\<close> is the value it receives.
\<close>

definition assign_cells :: "(nat \<Rightarrow> nat \<Rightarrow> bool) \<Rightarrow> (nat \<Rightarrow> nat \<Rightarrow> fl) \<Rightarrow> frame \<Rightarrow> frame" where
  "assign_cells sel val fr =
     map (\<lambda>(t, row). map (\<lambda>(j, v). if sel t j then val t j else v) (enumerate 0 row))
       (enumerate 0 fr)"

text \<open>A frame of \<open>nt\<close> rows with \<open>nc\<close> cells each.\<close>

definition frame_shape :: "nat \<Rightarrow> nat \<Rightarrow> frame \<Rightarrow> bool" where
  "frame_shape nt nc fr \<longleftrightarrow> length fr = nt \<and> (\<forall>t<nt. length (fr ! t) = nc)"

text \<open>\<open>x > 0\<close> on one cell (false on NaN), and a frame masked by it.\<close>

definition is_pos :: "fl \<Rightarrow> bool" where
  "is_pos v = (case v of None \<Rightarrow> False | Some x \<Rightarrow> 0 < x)"

definition mask_positive :: "fl \<Rightarrow> fl" where
  "mask_positive v = (if is_pos v then v else None)"

section \<open>Quantile-normal transform\<close>

text \<open>
  Lines 163 to 165 on one cell: interpolate the cumulative probability, clip it to
  \<open>[0, 0.99999]\<close>, apply the normal quantile.
\<close>

definition z_score :: "scipy \<Rightarrow> cdf_table \<Rightarrow> fl \<Rightarrow> fl" where
  "z_score lib empirical_cdf v =
     (let cum_probs = np_clip 0 0.99999 (cdf_interp empirical_cdf v)
      in Option.bind cum_probs (norm_ppf lib))"

text \<open>
  The body of the station loop, without pooling: the positive cells of one station and
  month. In this mode the frame \<open>transformed_data\<close> starts without columns and gains the
  column of a station at the first assignment to it; every station is visited in the
  first pass of the month loop, before the frame is read, so the frame is modelled with
  all its columns from the start.
\<close>

definition nqt_station_step ::
  "scipy \<Rightarrow> frame \<Rightarrow> nat list \<Rightarrow> monthly_cdfs \<Rightarrow> nat \<Rightarrow> frame \<Rightarrow> nat \<Rightarrow> error + frame" where
  "nqt_station_step lib df times' monthly_cdfs month transformed_data station =
     (case station_cdf monthly_cdfs station month of
        Inl e \<Rightarrow> Inl e
      | Inr empirical_cdf \<Rightarrow>
          Inr (assign_cells
                 (\<lambda>t j. j = station \<and> times' ! t = month \<and> is_pos (df ! t ! j))
                 (\<lambda>t j. if Value empirical_cdf \<noteq> [] then z_score lib empirical_cdf (df ! t ! j)
                         else None)
                 transformed_data))"

text \<open>The same body with pooling: all rows of the month, the cells that are not positive masked.\<close>

definition nqt_pooled_step ::
  "scipy \<Rightarrow> frame \<Rightarrow> nat list \<Rightarrow> monthly_cdfs \<Rightarrow> nat \<Rightarrow> frame \<Rightarrow> error + frame" where
  "nqt_pooled_step lib df times' monthly_cdfs month transformed_data =
     (case pooled_cdf monthly_cdfs month of
        Inl e \<Rightarrow> Inl e
      | Inr empirical_cdf \<Rightarrow>
          Inr (assign_cells
                 (\<lambda>t j. times' ! t = month)
                 (\<lambda>t j. case empirical_cdf of
                           None \<Rightarrow> None
                         | Some tbl \<Rightarrow>
                             if Value tbl \<noteq> [] then z_score lib tbl (mask_positive (df ! t ! j))
                             else None)
                 transformed_data))"

text \<open>\<open>nan_columns\<close>: the columns of the input whose cells are all NaN.\<close>

definition nan_columns :: "fl list list \<Rightarrow> nat list" where
  "nan_columns cols = filter (\<lambda>col. list_all (\<lambda>v. v = None) (cols ! col)) [0..<length cols]"

text \<open>Lines 184 to 186: the columns listed in \<open>nan_columns\<close> are set to NaN.\<close>

definition remove_nan_stations :: "nat list \<Rightarrow> frame \<Rightarrow> frame" where
  "remove_nan_stations nan_cols filled =
     map (\<lambda>row. map (\<lambda>(col_index, v). if col_index \<in> set nan_cols then None else v)
                  (enumerate 0 row))
       filled"

text \<open>
  One pass of the month loop. The state is the frame \<open>transformed_data\<close> and the array
  \<open>transformed_data_filled\<close>, which is unbound before the first pass and is computed
  anew at the end of each pass: fill with \<open>min_z_value\<close>, then remove the NaN stations.
\<close>

definition nqt_month_step ::
  "scipy \<Rightarrow> frame \<Rightarrow> nat list \<Rightarrow> monthly_cdfs \<Rightarrow> bool \<Rightarrow> nat \<Rightarrow> nat list \<Rightarrow> real
     \<Rightarrow> frame \<times> frame option \<Rightarrow> nat \<Rightarrow> error + frame \<times> frame option" where
  "nqt_month_step lib df times' monthly_cdfs is_pooled ncols nan_cols min_z st month =
     (case (if is_pooled then nqt_pooled_step lib df times' monthly_cdfs month (fst st)
            else efoldl (nqt_station_step lib df times' monthly_cdfs month) (fst st) [0..<ncols]) of
        Inl e \<Rightarrow> Inl e
      | Inr transformed_data \<Rightarrow>
          (let transformed_data_filled = map (map (nan_to_num min_z)) transformed_data
           in Inr (transformed_data, Some (remove_nan_stations nan_cols transformed_data_filled))))"

definition normal_quantile_transform ::
  "scipy \<Rightarrow> ndarray \<Rightarrow> nat list \<Rightarrow> monthly_cdfs \<Rightarrow> settings \<Rightarrow> error + frame" where
  "normal_quantile_transform lib data times' monthly_cdfs settings =
     (let is_pooled = get_default True (pooled settings);
          min_z = get_default (- 4) (min_z_value settings)
      in case data_frame data times' of
           Inl e \<Rightarrow> Inl e
         | Inr cols \<Rightarrow>
             (let df = frame_of_columns (length times') cols;
                  transformed_data = nan_frame (length times') (length cols)
              in case efoldl (nqt_month_step lib df times' monthly_cdfs is_pooled (length cols)
                                (nan_columns cols) min_z)
                        (transformed_data, None) [1..<13] of
                   Inl e \<Rightarrow> Inl e
                 | Inr (transformed_data, None) \<Rightarrow> Inl UnboundLocalError
                 | Inr (transformed_data, Some transformed_data_filled) \<Rightarrow>
                     Inr transformed_data_filled))"

section \<open>Inverse quantile-normal transform\<close>

text \<open>
  Lines 228 and 230 (and 359 and 362) on one cell: a value below \<open>min_est_value\<close> becomes
  NaN, then NaN becomes 0.
\<close>

definition filter_small :: "real \<Rightarrow> fl \<Rightarrow> fl" where
  "filter_small min_est v =
     (case v of None \<Rightarrow> None | Some x \<Rightarrow> if x < min_est then None else Some x)"

definition back_value :: "real \<Rightarrow> fl \<Rightarrow> fl" where
  "back_value min_est v = nan_to_num 0 (filter_small min_est v)"

text \<open>
  The gridded input: \<open>data.reshape(-1, len(data[0,0,]))\<close>, then
  \<open>pd.DataFrame(flattened_data.T, index=time)\<close>, as the list of the columns, one per grid
  cell. An array without a first row or first cell has no \<open>data[0,0,]\<close>, a time axis
  of length 0 cannot be reshaped, and the series must be as long as the time index.
\<close>

definition grid_frame :: "fl list list list \<Rightarrow> nat list \<Rightarrow> error + fl list list" where
  "grid_frame g time =
     (case g of
        [] \<Rightarrow> Inl IndexError
      | r # _ \<Rightarrow>
          (case r of
             [] \<Rightarrow> Inl IndexError
           | c # _ \<Rightarrow>
               if length c = 0 then Inl ValueError
               else (let flattened_data = concat g
                     in if list_all (\<lambda>col. length col = length time) flattened_data
                        then Inr flattened_data else Inl ValueError)))"

text \<open>
  \<open>back_transform_array.T.reshape(np.shape(data))\<close>: from rows by time and columns by
  cell to an array of \<open>nr\<close> rows, \<open>nc\<close> columns and \<open>nt\<close> times.
\<close>

definition to_grid :: "nat \<Rightarrow> nat \<Rightarrow> nat \<Rightarrow> frame \<Rightarrow> fl list list list" where
  "to_grid nr nc nt fr =
     map (\<lambda>r. map (\<lambda>c. map (\<lambda>t. fr ! t ! (r * nc + c)) [0..<nt]) [0..<nc]) [0..<nr]"

text \<open>
  What one pass writes into a cell, as a function of the z-score: for a table with rows
  the interpolated value, filtered; for no table or an empty one 0. With another
  \<open>interp_method\<close> than \<open>interp1d\<close> the variable \<open>original_values\<close> is unbound.
\<close>

definition inqt_values :: "scipy \<Rightarrow> string \<Rightarrow> real \<Rightarrow> cdf_table option \<Rightarrow> error + (fl \<Rightarrow> fl)" where
  "inqt_values lib interp min_est empirical_cdf =
     (case empirical_cdf of
        None \<Rightarrow> Inr (\<lambda>z. Some 0)
      | Some tbl \<Rightarrow>
          if Value tbl \<noteq> [] then
            (if interp = ''interp1d''
             then Inr (\<lambda>z. let cum_probs = Option.bind z (norm_cdf lib)
                            in back_value min_est (value_interp tbl cum_probs))
             else Inl UnboundLocalError)
          else Inr (\<lambda>z. Some 0))"

definition inqt_station_step ::
  "scipy \<Rightarrow> frame \<Rightarrow> nat list \<Rightarrow> monthly_cdfs \<Rightarrow> string \<Rightarrow> real \<Rightarrow> nat \<Rightarrow> frame \<Rightarrow> nat
     \<Rightarrow> error + frame" where
  "inqt_station_step lib transformed_data time monthly_cdfs interp min_est month
       back_transformed_data station =
     (case station_cdf monthly_cdfs station month of
        Inl e \<Rightarrow> Inl e
      | Inr empirical_cdf \<Rightarrow>
          (case inqt_values lib interp min_est (Some empirical_cdf) of
             Inl e \<Rightarrow> Inl e
           | Inr original_values \<Rightarrow>
               Inr (assign_cells (\<lambda>t j. j = station \<and> time ! t = month)
                      (\<lambda>t j. original_values (transformed_data ! t ! j))
                      back_transformed_data)))"

text \<open>
  With pooling, and no table or an empty one, the vector \<open>np.zeros(len(z_scores))\<close> is
  written to the block of the month's rows and all columns. numpy broadcasts it along
  the rows, which needs as many rows as columns or a single row; a selection without
  rows is left alone; any other shape raises.
\<close>

definition zeros_fit :: "nat \<Rightarrow> nat \<Rightarrow> bool" where
  "zeros_fit rows ncols \<longleftrightarrow> rows \<le> 1 \<or> rows = ncols"

definition no_rows_table :: "cdf_table option \<Rightarrow> bool" where
  "no_rows_table empirical_cdf =
     (case empirical_cdf of None \<Rightarrow> True | Some tbl \<Rightarrow> Value tbl = [])"

definition inqt_pooled_step ::
  "scipy \<Rightarrow> frame \<Rightarrow> nat list \<Rightarrow> monthly_cdfs \<Rightarrow> string \<Rightarrow> real \<Rightarrow> nat \<Rightarrow> nat \<Rightarrow> frame
     \<Rightarrow> error + frame" where
  "inqt_pooled_step lib transformed_data time monthly_cdfs interp min_est ncols month
       back_transformed_data =
     (case pooled_cdf monthly_cdfs month of
        Inl e \<Rightarrow> Inl e
      | Inr empirical_cdf \<Rightarrow>
          (case inqt_values lib interp min_est empirical_cdf of
             Inl e \<Rightarrow> Inl e
           | Inr original_values \<Rightarrow>
               if no_rows_table empirical_cdf
                  \<and> \<not> zeros_fit (length (filter (\<lambda>m. m = month) time)) ncols
               then Inl ValueError
               else Inr (assign_cells (\<lambda>t j. time ! t = month)
                           (\<lambda>t j. original_values (transformed_data ! t ! j))
                           back_transformed_data)))"

definition inqt_month_step ::
  "scipy \<Rightarrow> frame \<Rightarrow> nat list \<Rightarrow> monthly_cdfs \<Rightarrow> bool \<Rightarrow> string \<Rightarrow> real \<Rightarrow> nat \<Rightarrow> frame \<Rightarrow> nat
     \<Rightarrow> error + frame" where
  "inqt_month_step lib transformed_data time monthly_cdfs is_pooled interp min_est ncols
       back_transformed_data month =
     (if is_pooled
      then inqt_pooled_step lib transformed_data time monthly_cdfs interp min_est ncols month
             back_transformed_data
      else efoldl (inqt_station_step lib transformed_data time monthly_cdfs interp min_est month)
             back_transformed_data [0..<ncols])"

text \<open>The two loops on the columns of the frame, from a frame of NaN.\<close>

definition inqt_loop ::
  "scipy \<Rightarrow> nat list \<Rightarrow> monthly_cdfs \<Rightarrow> settings \<Rightarrow> fl list list \<Rightarrow> error + frame" where
  "inqt_loop lib time monthly_cdfs settings cols =
     (let is_pooled = get_default True (pooled settings);
          interp = get_default ''interp1d'' (interp_method settings);
          min_est = get_default 0.01 (min_est_value settings);
          transformed_data = frame_of_columns (length time) cols;
          back_transformed_data = nan_frame (length time) (length cols)
      in efoldl (inqt_month_step lib transformed_data time monthly_cdfs is_pooled interp min_est
                   (length cols))
           back_transformed_data [1..<13])"

text \<open>
  A 1-D array passes neither test on \<open>data.ndim\<close>, and the first pass of the loop finds
  \<open>transformed_data\<close> unbound.
\<close>

definition inverse_normal_quantile_transform ::
  "scipy \<Rightarrow> ndarray \<Rightarrow> nat list \<Rightarrow> monthly_cdfs \<Rightarrow> settings \<Rightarrow> error + ndarray" where
  "inverse_normal_quantile_transform lib data time monthly_cdfs settings =
     (case data of
        Arr3 g \<Rightarrow>
          (case grid_frame g time of
             Inl e \<Rightarrow> Inl e
           | Inr cols \<Rightarrow>
               (case inqt_loop lib time monthly_cdfs settings cols of
                  Inl e \<Rightarrow> Inl e
                | Inr back_transform_array \<Rightarrow>
                    Inr (Arr3 (to_grid (length g) (length (hd g)) (length time)
                                 back_transform_array))))
      | Arr2 stations \<Rightarrow>
          (case data_frame data time of
             Inl e \<Rightarrow> Inl e
           | Inr cols \<Rightarrow>
               (case inqt_loop lib time monthly_cdfs settings cols of
                  Inl e \<Rightarrow> Inl e
                | Inr back_transform_array \<Rightarrow> Inr (Arr2 back_transform_array)))
      | Arr1 xs \<Rightarrow> Inl UnboundLocalError)"

section \<open>Gamma transform\<close>

text \<open>
  A gamma dataset has the two variables \<open>gamma_shape\<close> and \<open>gamma_scale\<close>. For stations
  they are indexed by station and month, for a grid by month, each month holding a 2-D
  field.
\<close>

record 'a gamma_ds =
  gamma_shape :: 'a
  gamma_scale :: 'a

type_synonym station_gamma = "(nat \<times> nat \<rightharpoonup> fl) gamma_ds"

type_synonym gridded_gamma = "(nat \<rightharpoonup> fl list list) gamma_ds"

text \<open>\<open>norm.ppf(gamma.cdf(x, a=a, loc=0, scale=scale))\<close> on one cell.\<close>

definition gamma_z :: "scipy \<Rightarrow> fl \<Rightarrow> fl \<Rightarrow> fl \<Rightarrow> fl" where
  "gamma_z lib a scale v =
     (let cum_probs = (case (v, a, scale) of
                         (Some x, Some a', Some s') \<Rightarrow> gamma_cdf lib x a' s'
                       | _ \<Rightarrow> None)
      in Option.bind cum_probs (norm_ppf lib))"

text \<open>
  The body of the station loop. The month's data holds positive cells only, so it is all
  NaN exactly when it is empty, and then nothing is written.
\<close>

definition gamma_station_step ::
  "scipy \<Rightarrow> frame \<Rightarrow> nat list \<Rightarrow> station_gamma \<Rightarrow> nat \<Rightarrow> frame \<Rightarrow> nat \<Rightarrow> error + frame" where
  "gamma_station_step lib df times' gamma_stations_ds month transformed_data station =
     (if \<not> list_ex (\<lambda>t. times' ! t = month \<and> is_pos (df ! t ! station)) [0..<length times']
      then Inr transformed_data
      else case (gamma_shape gamma_stations_ds (station, month),
                 gamma_scale gamma_stations_ds (station, month)) of
             (Some a, Some scale) \<Rightarrow>
               Inr (assign_cells
                      (\<lambda>t j. j = station \<and> times' ! t = month \<and> is_pos (df ! t ! j))
                      (\<lambda>t j. gamma_z lib a scale (df ! t ! j))
                      transformed_data)
           | _ \<Rightarrow> Inl KeyError)"

definition gamma_month_step ::
  "scipy \<Rightarrow> frame \<Rightarrow> nat list \<Rightarrow> station_gamma \<Rightarrow> nat \<Rightarrow> frame \<Rightarrow> nat \<Rightarrow> error + frame" where
  "gamma_month_step lib df times' gamma_stations_ds ncols transformed_data month =
     efoldl (gamma_station_step lib df times' gamma_stations_ds month) transformed_data [0..<ncols]"

definition gamma_transform ::
  "scipy \<Rightarrow> ndarray \<Rightarrow> nat list \<Rightarrow> settings \<Rightarrow> station_gamma \<Rightarrow> error + frame" where
  "gamma_transform lib data times' settings gamma_stations_ds =
     (let min_z = get_default (- 4) (min_z_value settings)
      in case data_frame data times' of
           Inl e \<Rightarrow> Inl e
         | Inr cols \<Rightarrow>
             (case efoldl (gamma_month_step lib (frame_of_columns (length times') cols) times'
                             gamma_stations_ds (length cols))
                     (nan_frame (length times') (length cols)) [1..<13] of
                Inl e \<Rightarrow> Inl e
              | Inr transformed_data \<Rightarrow> Inr (map (map (nan_to_num min_z)) transformed_data)))"

section \<open>Inverse gamma transform\<close>

text \<open>
  The variable \<open>cum_probs\<close> at the call of the gamma quantile, on one cell: on the
  station path (line 337) and on the grid path (lines 350 and 351).
\<close>

definition cum_probs_station :: "scipy \<Rightarrow> fl \<Rightarrow> fl" where
  "cum_probs_station lib z = Option.bind z (norm_cdf lib)"

definition cum_probs_grid :: "scipy \<Rightarrow> fl \<Rightarrow> fl" where
  "cum_probs_grid lib z = np_clip 0 0.99999 (Option.bind z (norm_cdf lib))"

text \<open>\<open>gamma.ppf(q, a=a, loc=0, scale=scale)\<close> on one cell.\<close>

definition np_gamma_ppf :: "scipy \<Rightarrow> fl \<Rightarrow> fl \<Rightarrow> fl \<Rightarrow> fl" where
  "np_gamma_ppf lib q a scale =
     (case (q, a, scale) of
        (Some q', Some a', Some s') \<Rightarrow> gamma_ppf lib q' a' s'
      | _ \<Rightarrow> None)"

text \<open>A parameter read from a dataset that is known to hold it.\<close>

definition param_at :: "('k \<rightharpoonup> fl) \<Rightarrow> 'k \<Rightarrow> fl" where
  "param_at m k = (case m k of None \<Rightarrow> None | Some v \<Rightarrow> v)"

text \<open>
  One pass of the month loop for stations: the only pass of the inner loop takes all
  columns at once. \<open>z_scores.empty\<close> holds when the month has no row or the frame no
  column, and then no cell is written.
\<close>

definition gbt_station_month_step ::
  "scipy \<Rightarrow> frame \<Rightarrow> nat list \<Rightarrow> station_gamma \<Rightarrow> real \<Rightarrow> nat \<Rightarrow> frame \<Rightarrow> nat \<Rightarrow> error + frame" where
  "gbt_station_month_step lib transformed_data time gamma_station_ds min_est ncols
       back_transformed_data month =
     (if \<not> list_ex (\<lambda>t. time ! t = month) [0..<length time] \<or> ncols = 0
      then Inr back_transformed_data
      else if list_all (\<lambda>j. gamma_shape gamma_station_ds (j, month) \<noteq> None
                            \<and> gamma_scale gamma_station_ds (j, month) \<noteq> None) [0..<ncols]
      then Inr (assign_cells (\<lambda>t j. time ! t = month)
                  (\<lambda>t j. back_value min_est
                            (np_gamma_ppf lib (cum_probs_station lib (transformed_data ! t ! j))
                               (param_at (gamma_shape gamma_station_ds) (j, month))
                               (param_at (gamma_scale gamma_station_ds) (j, month))))
                  back_transformed_data)
      else Inl KeyError)"

text \<open>numpy broadcasting of a flat parameter array against \<open>n\<close> cells.\<close>

definition broadcast :: "fl list \<Rightarrow> nat \<Rightarrow> fl list option" where
  "broadcast xs n =
     (if length xs = n then Some xs
      else if length xs = 1 then Some (replicate n (hd xs))
      else None)"

text \<open>
  The parameter of grid cell \<open>j\<close> in a month: the month's field, flattened and broadcast
  to the cells.
\<close>

definition grid_param :: "(nat \<rightharpoonup> fl list list) \<Rightarrow> nat \<Rightarrow> nat \<Rightarrow> nat \<Rightarrow> fl" where
  "grid_param field month ncells j =
     (case field month of
        None \<Rightarrow> None
      | Some a \<Rightarrow> (case broadcast (concat a) ncells of None \<Rightarrow> None | Some a_flat \<Rightarrow> a_flat ! j))"

text \<open>One pass of the month loop for a grid; the dataset is an optional argument.\<close>

definition gbt_grid_month_step ::
  "scipy \<Rightarrow> frame \<Rightarrow> nat list \<Rightarrow> gridded_gamma option \<Rightarrow> real \<Rightarrow> nat \<Rightarrow> frame \<Rightarrow> nat
     \<Rightarrow> error + frame" where
  "gbt_grid_month_step lib transformed_data time gamma_gridded_ds min_est ncells
       back_transformed_data month =
     (if \<not> list_ex (\<lambda>t. time ! t = month) [0..<length time] \<or> ncells = 0
      then Inr back_transformed_data
      else case gamma_gridded_ds of
             None \<Rightarrow> Inl TypeError
           | Some ds \<Rightarrow>
               (case (gamma_shape ds month, gamma_scale ds month) of
                  (Some a, Some scale) \<Rightarrow>
                    (case (broadcast (concat a) ncells, broadcast (concat scale) ncells) of
                       (Some a_flat, Some scale_flat) \<Rightarrow>
                         Inr (assign_cells (\<lambda>t j. time ! t = month)
                                (\<lambda>t j. back_value min_est
                                          (np_gamma_ppf lib
                                             (cum_probs_grid lib (transformed_data ! t ! j))
                                             (a_flat ! j) (scale_flat ! j)))
                                back_transformed_data)
                     | _ \<Rightarrow> Inl ValueError)
                | _ \<Rightarrow> Inl KeyError))"

definition gamma_back_transform ::
  "scipy \<Rightarrow> ndarray \<Rightarrow> nat list \<Rightarrow> settings \<Rightarrow> station_gamma \<Rightarrow> gridded_gamma option
     \<Rightarrow> error + ndarray" where
  "gamma_back_transform lib data time settings gamma_station_ds gamma_gridded_ds =
     (let min_est = get_default 0.01 (min_est_value settings)
      in case data of
           Arr2 stations \<Rightarrow>
             (case data_frame data time of
                Inl e \<Rightarrow> Inl e
              | Inr cols \<Rightarrow>
                  (case efoldl (gbt_station_month_step lib (frame_of_columns (length time) cols)
                                  time gamma_station_ds min_est (length cols))
                          (nan_frame (length time) (length cols)) [1..<13] of
                     Inl e \<Rightarrow> Inl e
                   | Inr back_transform_array \<Rightarrow> Inr (Arr2 back_transform_array)))
         | Arr3 g \<Rightarrow>
             (case grid_frame g time of
                Inl e \<Rightarrow> Inl e
              | Inr cols \<Rightarrow>
                  (case efoldl (gbt_grid_month_step lib (frame_of_columns (length time) cols)
                                  time gamma_gridded_ds min_est (length cols))
                          (nan_frame (length time) (length cols)) [1..<13] of
                     Inl e \<Rightarrow> Inl e
                   | Inr back_transform_array \<Rightarrow>
                       Inr (Arr3 (to_grid (length g) (length (hd g)) (length time)
                                    back_transform_array))))
         | Arr1 xs \<Rightarrow> Inl UnboundLocalError)"

section \<open>Dispatcher\<close>

text \<open>
  \<open>data.T\<close> of a 2-D array with \<open>nc\<close> columns; the count is given, since an array
  without rows does not show it.
\<close>

definition transpose_array :: "nat \<Rightarrow> frame \<Rightarrow> frame" where
  "transpose_array nc fr = map (\<lambda>j. map (\<lambda>r. r ! j) fr) [0..<nc]"

text \<open>The number of columns of the frame made from the data: one per station.\<close>

definition station_count :: "ndarray \<Rightarrow> nat" where
  "station_count data = (case data of Arr1 xs \<Rightarrow> 1 | Arr2 cols \<Rightarrow> length cols | Arr3 g \<Rightarrow> 0)"

text \<open>
  \<open>print(...); sys.exit()\<close> is the result \<open>Inl SystemExit\<close>: the interpreter leaves.
  The keyword arguments are taken as given by the caller; only the gridded gamma
  dataset may be absent.
\<close>

definition data_transformation ::
  "scipy \<Rightarrow> ndarray \<Rightarrow> string \<Rightarrow> settings \<Rightarrow> string \<Rightarrow> nat list \<Rightarrow> monthly_cdfs \<Rightarrow> station_gamma
     \<Rightarrow> gridded_gamma option \<Rightarrow> error + ndarray" where
  "data_transformation lib data method settings mode times' cdfs gamma_stations_ds
       gamma_gridded_ds =
     (if method = ''boxcox'' then
        (if mode = ''transform'' then
           (case exponent settings of
              None \<Rightarrow> Inl KeyError
            | Some texp \<Rightarrow> boxcox_transform data texp)
         else if mode = ''back_transform'' then
           (case exponent settings of
              None \<Rightarrow> Inl KeyError
            | Some texp \<Rightarrow> boxcox_back_transform data texp)
         else Inl SystemExit)
      else if method = ''ecdf'' then
        (if mode = ''transform'' then
           (case normal_quantile_transform lib data times' cdfs settings of
              Inl e \<Rightarrow> Inl e
            | Inr d \<Rightarrow> Inr (Arr2 (transpose_array (station_count data) d)))
         else if mode = ''back_transform'' then
           (case inverse_normal_quantile_transform lib data times' cdfs settings of
              Inl e \<Rightarrow> Inl e
            | Inr d \<Rightarrow> Inr (case d of Arr2 fr \<Rightarrow> Arr2 (transpose_array (station_count data) fr) | _ \<Rightarrow> d))
         else Inl SystemExit)
      else if method = ''gamma_monthly'' then
        (if mode = ''transform'' then
           (case gamma_transform lib data times' settings gamma_stations_ds of
              Inl e \<Rightarrow> Inl e
            | Inr d \<Rightarrow> Inr (Arr2 (transpose_array (station_count data) d)))
         else if mode = ''back_transform'' then
           (case gamma_back_transform lib data times' settings gamma_stations_ds
                   gamma_gridded_ds of
              Inl e \<Rightarrow> Inl e
            | Inr d \<Rightarrow> Inr (case d of Arr2 fr \<Rightarrow> Arr2 (transpose_array (station_count data) fr) | _ \<Rightarrow> d))
         else Inl SystemExit)
      else Inl SystemExit)"

section \<open>Cells of a back-transformed array\<close>

text \<open>A number that is 0 or at least \<open>min_est\<close>; NaN is not.\<close>

definition physical :: "real \<Rightarrow> fl \<Rightarrow> bool" where
  "physical min_est v = (case v of None \<Rightarrow> False | Some x \<Rightarrow> x = 0 \<or> min_est \<le> x)"

section \<open>Example inputs\<close>

text \<open>The empty settings dictionary: every option takes its default.\<close>

definition empty_settings :: settings where
  "empty_settings = \<lparr>pooled = None, min_num_obs = None, add_noise = None, min_z_value = None,
     min_est_value = None, exponent = None, interp_method = None\<rparr>"

text \<open>
  A stand-in for the library in the examples: a step function for the normal
  distribution function, which is 1 above 5 and 1/1000 below -5, and a gamma quantile
  that multiplies the probability by the scale and is infinite at probability 1.
\<close>

definition example_scipy :: scipy where
  "example_scipy =
     \<lparr>norm_ppf = Some,
      norm_cdf = (\<lambda>z. Some (if 5 < z then 1 else if z < - 5 then 1 / 1000 else 1 / 2)),
      gamma_cdf = (\<lambda>x a s. Some x),
      gamma_ppf = (\<lambda>q a s. if q = 1 then Some float_max else Some (q * s))\<rparr>"

section \<open>Properties of the power transform\<close>

lemma float_max_ge_1: "1 \<le> float_max"
proof -
  have a: "(1::real) \<le> 2 ^ 53 - 1" by simp
  have b: "(1::real) \<le> 2 ^ 971" by (rule one_le_power) simp
  have "(1::real) * 1 \<le> (2 ^ 53 - 1) * 2 ^ 971"
    using a b by (intro mult_mono) simp_all
  then show ?thesis by (simp only: float_max_def mult_1)
qed

lemma float_max_lt: "float_max < 2 ^ 1024"
proof -
  have "(2::real) ^ 53 - 1 < 2 ^ 53" by simp
  moreover have "(0::real) < 2 ^ 971" by (rule zero_less_power) simp
  ultimately have "((2::real) ^ 53 - 1) * 2 ^ 971 < 2 ^ 53 * 2 ^ 971"
    by (rule mult_strict_right_mono)
  also have "(2::real) ^ 53 * 2 ^ 971 = 2 ^ (53 + 971)" by (rule power_add[symmetric])
  also have "(53::nat) + 971 = 1024" by simp
  finally show ?thesis by (simp only: float_max_def)
qed


text \<open>
  The forward transform leaves the range of the doubles inside the domain of
  non-negative cells and positive exponents: the cell 4 with the exponent 1/2048 asks
  for the power 4 ** 2048, which is infinite.
\<close>

lemma np_power_overflow: "np_power (Some 4) 2048 = None"
proof -
  have e: "(2::nat) * 2048 = 4096" by simp
  have p: "(4::real) powr 2048 = 4 ^ 2048" by (rule powr_numeral) simp
  have "(4::real) = 2 ^ 2" by simp
  then have "(4::real) ^ 2048 = (2 ^ 2) ^ 2048" by (rule arg_cong)
  also have "\<dots> = (2::real) ^ (2 * 2048)" by (rule power_mult[symmetric])
  also have "\<dots> = (2::real) ^ 4096" by (simp only: e)
  finally have q: "(4::real) ^ 2048 = 2 ^ 4096" .
  have "(2::real) ^ 1024 \<le> 2 ^ 4096" by (rule power_increasing) simp_all
  with float_max_lt have big: "float_max < (2::real) ^ 4096" by (rule less_le_trans)
  have "(0::real) \<le> 2 ^ 4096" by (rule zero_le_power) simp
  then have "\<bar>(2::real) ^ 4096\<bar> = 2 ^ 4096" by (rule abs_of_nonneg)
  with big have "\<not> \<bar>(2::real) ^ 4096\<bar> \<le> float_max" by (simp only: not_le)
  then have f: "fin ((4::real) powr 2048) = None" by (simp only: fin_def p q if_False)
  have n: "(2048::real) \<noteq> 0" "(0::real) < 4" by simp_all
  show ?thesis
    unfolding np_power_def by (simp only: n if_False if_True option.case f)
qed

lemma boxcox_transform_overflow:
  "boxcox_transform (Arr1 [Some 4]) (1 / 2048) = Inr (Arr1 [None])"
proof -
  have a: "(1::real) / (1 / 2048) = 2048" "(1::real) / 2048 \<noteq> 0" by simp_all
  have c: "clamp_below 0 (Some 4) = Some 4" by (simp add: clamp_below_def)
  have b: "boxcox_cell 2048 (Some 4) = None"
    by (simp only: boxcox_cell_def np_power_overflow Option.bind.simps)
  show ?thesis
    by (simp only: boxcox_transform_def Let_def map_ndarray.simps list.map c a if_False b)
qed

subsection \<open>The caller's array\<close>

lemma alloc_keeps: "a < length h \<Longrightarrow> fst (alloc h obj) ! a = h ! a"
  by (simp add: alloc_def nth_append)

lemma as_ndarray_keeps:
  "r < length h \<Longrightarrow> as_ndarray h r = (h', r') \<Longrightarrow>
     length h \<le> length h' \<and> r' < length h' \<and> (\<forall>a < length h. h' ! a = h ! a)"
  by (auto simp: as_ndarray_def alloc_def nth_append split: pyobj.splits)

lemma copy_array_keeps:
  "copy_array h r = (h', r') \<Longrightarrow>
     length h' = Suc (length h) \<and> r' = length h \<and> (\<forall>a < length h. h' ! a = h ! a)"
  by (auto simp: copy_array_def alloc_def nth_append)

lemma masked_assign_keeps: "a \<noteq> r \<Longrightarrow> masked_assign h r lo ! a = h ! a"
  by (simp add: masked_assign_def)

lemma masked_assign_length: "length (masked_assign h r lo) = length h"
  by (simp add: masked_assign_def)

lemma boxcox_transform_heap_frame:
  assumes "r < length h" "a < length h"
  shows "fst (boxcox_transform_heap h r texp) ! a = h ! a"
proof -
  obtain h1 r1 where s1: "as_ndarray h r = (h1, r1)" by (cases "as_ndarray h r")
  obtain h2 r2 where s2: "copy_array h1 r1 = (h2, r2)" by (cases "copy_array h1 r1")
  from as_ndarray_keeps[OF assms(1) s1] have k1: "length h \<le> length h1" "h1 ! a = h ! a"
    using assms(2) by auto
  from copy_array_keeps[OF s2] have k2: "length h2 = Suc (length h1)" "r2 = length h1" "h2 ! a = h1 ! a"
    using k1 assms(2) by auto
  have k3: "masked_assign h2 r2 0 ! a = h ! a" "a < length (masked_assign h2 r2 0)"
    using k1 k2 assms(2) by (auto simp: masked_assign_keeps masked_assign_length)
  show ?thesis
    using k3 by (simp add: boxcox_transform_heap_def s1 s2 Let_def alloc_def nth_append split: prod.splits)
qed

lemma boxcox_back_transform_heap_frame:
  assumes "r < length h" "a < length h"
  shows "fst (boxcox_back_transform_heap h r texp) ! a = h ! a"
proof -
  obtain h1 r1 where s1: "as_ndarray h r = (h1, r1)" by (cases "as_ndarray h r")
  obtain h2 r2 where s2: "copy_array h1 r1 = (h2, r2)" by (cases "copy_array h1 r1")
  from as_ndarray_keeps[OF assms(1) s1] have k1: "length h \<le> length h1" "h1 ! a = h ! a"
    using assms(2) by auto
  from copy_array_keeps[OF s2] have k2: "length h2 = Suc (length h1)" "r2 = length h1" "h2 ! a = h1 ! a"
    using k1 assms(2) by auto
  have k3: "masked_assign h2 r2 (- texp) ! a = h ! a" "a < length (masked_assign h2 r2 (- texp))"
    using k1 k2 assms(2) by (auto simp: masked_assign_keeps masked_assign_length)
  show ?thesis
    using k3 by (simp add: boxcox_back_transform_heap_def s1 s2 Let_def alloc_def nth_append split: prod.splits)
qed

text \<open>The store version returns the array that the value version computes.\<close>

lemma boxcox_transform_heap_value:
  assumes "r < length h"
  shows "(case boxcox_transform_heap h r texp of
           (h', Inr r') \<Rightarrow> boxcox_transform (array_of (h ! r)) texp = Inr (array_of (h' ! r'))
         | (h', Inl e) \<Rightarrow> boxcox_transform (array_of (h ! r)) texp = Inl e)"
  using assms
  by (auto simp: boxcox_transform_heap_def boxcox_transform_def as_ndarray_def copy_array_def
      masked_assign_def alloc_def array_of_def Let_def nth_append split: pyobj.splits)

lemma boxcox_back_transform_heap_value:
  assumes "r < length h"
  shows "(case boxcox_back_transform_heap h r texp of
           (h', Inr r') \<Rightarrow> boxcox_back_transform (array_of (h ! r)) texp = Inr (array_of (h' ! r'))
         | (h', Inl e) \<Rightarrow> boxcox_back_transform (array_of (h ! r)) texp = Inl e)"
  using assms
  by (auto simp: boxcox_back_transform_heap_def boxcox_back_transform_def as_ndarray_def copy_array_def
      masked_assign_def alloc_def array_of_def Let_def nth_append split: pyobj.splits)

text \<open>
  C9. Neither power transform changes an object that existed before the call, the
  argument included: both write only into the copy they allocate. This holds for every
  exponent and every content, negative cells included.
\<close>

theorem boxcox_input_unchanged:
  assumes "data < length h"
  shows "\<forall>a < length h. fst (boxcox_transform_heap h data texp) ! a = h ! a
           \<and> fst (boxcox_back_transform_heap h data texp) ! a = h ! a"
  using assms by (simp add: boxcox_transform_heap_frame boxcox_back_transform_heap_frame)

theorem boxcox_input_unchanged_witness:
  "fst (boxcox_transform_heap [NdArray (Arr1 [Some (- 1), Some 2])] 0 4) ! 0
       = NdArray (Arr1 [Some (- 1), Some 2])
   \<and> fst (boxcox_back_transform_heap [NdArray (Arr1 [Some (- 9), Some 2])] 0 4) ! 0
       = NdArray (Arr1 [Some (- 9), Some 2])"
  using boxcox_input_unchanged [of 0 "[NdArray (Arr1 [Some (- 1), Some 2])]" 4]
    boxcox_input_unchanged [of 0 "[NdArray (Arr1 [Some (- 9), Some 2])]" 4]
  by simp

section \<open>Properties of the empirical CDF builder\<close>

lemma set_positive_values: "set (positive_values vs) = {x. Some x \<in> set vs \<and> 0 < x}"
  by (induction vs rule: positive_values.induct) auto

lemma create_cdf_df_sorted: "sorted (Value (create_cdf_df data))"
  by (simp add: create_cdf_df_def Let_def)

lemma create_cdf_df_length: "length (CDF (create_cdf_df data)) = length (Value (create_cdf_df data))"
  by (simp add: create_cdf_df_def Let_def del: upt_Suc)

lemma create_cdf_df_CDF_increasing: "sorted_wrt (<) (CDF (create_cdf_df data))"
proof -
  let ?n = "length (positive_values data)"
  have "sorted_wrt (\<lambda>a b. real a / real ?n < real b / real ?n) [1..<?n + 1]"
  proof (rule sorted_wrt_mono_rel[of _ "(<)"])
    fix a b assume "a \<in> set [1..<?n + 1]" "b \<in> set [1..<?n + 1]" "a < b"
    then have "0 < ?n" by auto
    with \<open>a < b\<close> show "real a / real ?n < real b / real ?n"
      by (simp add: divide_strict_right_mono)
  next
    show "sorted_wrt (<) [1..<?n + 1]" by (simp del: upt_Suc)
  qed
  then show ?thesis
    by (simp add: create_cdf_df_def Let_def sorted_wrt_map del: upt_Suc)
qed

lemma create_cdf_df_CDF_range: "p \<in> set (CDF (create_cdf_df data)) \<Longrightarrow> 0 < p \<and> p \<le> 1"
proof -
  let ?n = "length (positive_values data)"
  assume "p \<in> set (CDF (create_cdf_df data))"
  then have "p \<in> (\<lambda>k. real k / real ?n) ` {1..<?n + 1}"
    by (simp add: create_cdf_df_def Let_def del: upt_Suc)
  then obtain k where k: "p = real k / real ?n" and kin: "k \<in> {1..<?n + 1}"
    by blast
  from kin have "1 \<le> k" "k \<le> ?n" by auto
  then have "0 < real k" "real k \<le> real ?n" "0 < real ?n" by auto
  with k show ?thesis by (simp add: divide_le_eq_1)
qed

lemma create_cdf_df_empty_iff: "Value (create_cdf_df data) = [] \<longleftrightarrow> (\<forall>x. Some x \<in> set data \<longrightarrow> x \<le> 0)"
proof -
  have "Value (create_cdf_df data) = [] \<longleftrightarrow> set (positive_values data) = {}"
    by (simp add: create_cdf_df_def Let_def del: upt_Suc set_empty) (metis set_empty set_sort)
  then show ?thesis by (auto simp: set_positive_values not_less)
qed

text \<open>
  C4. The observations 0, 0, 2, 4, 4, 6 of one month give the table with the values
  2, 4, 4, 6 and the probabilities 0.25, 0.5, 0.75, 1: the zeros are left out and the
  probability is rank over count, the rank starting at 1.
\<close>

theorem create_cdf_df_example:
  "create_cdf_df [Some 0, Some 0, Some 2, Some 4, Some 4, Some 6]
     = \<lparr>Value = [2, 4, 4, 6], CDF = [0.25, 0.5, 0.75, 1.0]\<rparr>"
  by (simp add: create_cdf_df_def upt_rec)

text \<open>
  C5 as stated fails: a positive value observed twice appears twice in the value column,
  which is then not strictly increasing.
\<close>

theorem create_cdf_df_not_strict:
  "\<not> sorted_wrt (<) (Value (create_cdf_df [Some 4, Some 4]))"
  by (simp add: create_cdf_df_def)

lemma count_list_insort: "count_list (insort a xs) x = count_list (a # xs) x"
  by (induction xs) auto

lemma count_list_sort: "count_list (sort xs) x = count_list xs x"
  by (induction xs) (simp_all add: count_list_insort)

lemma count_list_positive_values:
  "count_list (positive_values vs) x = (if 0 < x then count_list vs (Some x) else 0)"
  by (induction vs rule: positive_values.induct) auto

lemma create_cdf_df_count:
  "count_list (Value (create_cdf_df data)) x = (if 0 < x then count_list data (Some x) else 0)"
  by (simp add: create_cdf_df_def Let_def count_list_sort count_list_positive_values del: upt_Suc)

lemma create_cdf_df_CDF:
  "CDF (create_cdf_df data) =
     map (\<lambda>k. real k / real (length (Value (create_cdf_df data))))
       [1..<length (Value (create_cdf_df data)) + 1]"
  by (simp add: create_cdf_df_def Let_def del: upt_Suc)

text \<open>
  C5, amended. For every observation series the value column is sorted ascending and
  holds exactly the positive observations, each as often as it was observed (duplicates
  are kept), so it need not be strictly increasing; the probability column is rank over
  count with the rank starting at 1, hence strictly increasing, as long as the value
  column and within (0, 1]; and the table is empty exactly when the series has no
  positive observation.
\<close>

theorem create_cdf_df_invariant:
  "sorted (Value (create_cdf_df data))
   \<and> (\<forall>x. count_list (Value (create_cdf_df data)) x
            = (if 0 < x then count_list data (Some x) else 0))
   \<and> (\<forall>v \<in> set (Value (create_cdf_df data)). 0 < v)
   \<and> CDF (create_cdf_df data) =
         map (\<lambda>k. real k / real (length (Value (create_cdf_df data))))
           [1..<length (Value (create_cdf_df data)) + 1]
   \<and> sorted_wrt (<) (CDF (create_cdf_df data))
   \<and> length (CDF (create_cdf_df data)) = length (Value (create_cdf_df data))
   \<and> (\<forall>p \<in> set (CDF (create_cdf_df data)). 0 < p \<and> p \<le> 1)
   \<and> (Value (create_cdf_df data) = [] \<longleftrightarrow> (\<forall>x. Some x \<in> set data \<longrightarrow> x \<le> 0))"
proof -
  have "\<forall>v \<in> set (Value (create_cdf_df data)). 0 < v"
    by (simp add: create_cdf_df_def Let_def set_positive_values del: upt_Suc)
  then show ?thesis
    using create_cdf_df_sorted create_cdf_df_CDF_increasing create_cdf_df_length
      create_cdf_df_CDF_range create_cdf_df_empty_iff create_cdf_df_count create_cdf_df_CDF
    by blast
qed

theorem create_cdf_df_invariant_witness:
  "sorted (Value (create_cdf_df [Some 4, None, Some 4, Some 0]))
   \<and> count_list (Value (create_cdf_df [Some 4, None, Some 4, Some 0])) 4 = 2
   \<and> CDF (create_cdf_df [Some 4, None, Some 4, Some 0]) = [1 / 2, 1]
   \<and> sorted_wrt (<) (CDF (create_cdf_df [Some 4, None, Some 4, Some 0]))
   \<and> Value (create_cdf_df [Some 4, None, Some 4, Some 0]) \<noteq> []
   \<and> Value (create_cdf_df [Some 0, None]) = []"
  using create_cdf_df_invariant [of "[Some 4, None, Some 4, Some 0]"]
    create_cdf_df_invariant [of "[Some 0, None]"]
  by (auto simp: create_cdf_df_def)

section \<open>Properties of the sparse-station remediation\<close>

lemma efoldl_invariant:
  assumes "efoldl f s xs = Inr s'" and "P s"
    and "\<And>a x b. x \<in> set xs \<Longrightarrow> f a x = Inr b \<Longrightarrow> P a \<Longrightarrow> P b"
  shows "P s'"
  using assms
proof (induction xs arbitrary: s)
  case Nil
  then show ?case by simp
next
  case (Cons x xs)
  from Cons.prems(1) obtain s1 where s1: "f s x = Inr s1" "efoldl f s1 xs = Inr s'"
    by (auto split: sum.splits)
  have "P s1" using Cons.prems(3)[of x s s1] s1(1) Cons.prems(2) by simp
  then show ?case
    by (rule Cons.IH[OF s1(2)]) (rule Cons.prems(3), simp_all)
qed

lemma pooled_values_0: "pooled_values own nbr 0 = own"
  by (simp add: pooled_values_def)

lemma pooled_values_Suc: "pooled_values own nbr (Suc k) = pooled_values own nbr k @ Value (nbr k)"
  by (simp add: pooled_values_def)

lemma pool_loop_exit:
  "\<not> (int n < min_obs \<and> it < 5) \<Longrightarrow>
     pool_loop cdfs nearby stn i min_obs own sc n it = Inr (sc, n, it)"
  by (subst pool_loop.simps) (erule if_not_P)

lemma pool_loop_step:
  "int n < min_obs \<Longrightarrow> it < 5 \<Longrightarrow> near_station_cdf cdfs nearby stn i it = Inr near \<Longrightarrow>
     pool_loop cdfs nearby stn i min_obs own sc n it
       = pool_loop cdfs nearby stn i min_obs own ((if it = 0 then own else sc) @ Value near)
           (length ((if it = 0 then own else sc) @ Value near)) (Suc it)"
  by (subst pool_loop.simps) (simp add: Let_def)

lemma pool_loop_spec:
  assumes nb: "\<forall>j<5. near_station_cdf cdfs nearby stn i j = Inr (nbr j)"
  shows "it \<le> 5 \<Longrightarrow> (it = 0 \<or> sc = pooled_values own nbr it)
     \<Longrightarrow> \<forall>j<it. int (length (pooled_values own nbr j)) < min_obs
     \<Longrightarrow> \<exists>k. it \<le> k \<and> pool_stop own nbr min_obs k
           \<and> pool_loop cdfs nearby stn i min_obs own sc (length (pooled_values own nbr it)) it
               = Inr (if k = 0 then sc else pooled_values own nbr k, length (pooled_values own nbr k), k)"
proof (induction "5 - it" arbitrary: it sc)
  case 0
  then have it: "it = 5" by simp
  have "pool_loop cdfs nearby stn i min_obs own sc (length (pooled_values own nbr it)) it
      = Inr (sc, length (pooled_values own nbr it), it)"
    using it by (intro pool_loop_exit) simp
  moreover have "sc = pooled_values own nbr it" using "0.prems"(2) it by simp
  moreover have "pool_stop own nbr min_obs it" using "0.prems"(3) it by (simp add: pool_stop_def)
  ultimately show ?case using it by (intro exI[of _ it]) simp
next
  case (Suc d)
  then have it: "it < 5" by simp
  let ?n = "length (pooled_values own nbr it)"
  show ?case
  proof (cases "int ?n < min_obs")
    case False
    have ret: "pool_loop cdfs nearby stn i min_obs own sc ?n it = Inr (sc, ?n, it)"
      using False by (intro pool_loop_exit) simp
    have sc: "(if it = 0 then sc else pooled_values own nbr it) = sc"
      using Suc.prems(2) by (cases "it = 0") simp_all
    have "pool_stop own nbr min_obs it"
      using False Suc.prems(1,3) by (simp add: pool_stop_def)
    then show ?thesis
      by (intro exI[of _ it]) (simp only: ret sc le_refl simp_thms)
  next
    case True
    let ?sc' = "pooled_values own nbr (Suc it)"
    have nbit: "near_station_cdf cdfs nearby stn i it = Inr (nbr it)" using nb it by simp
    have sc': "(if it = 0 then own else sc) @ Value (nbr it) = ?sc'"
      using Suc.prems(2) by (cases "it = 0") (simp_all add: pooled_values_Suc pooled_values_0)
    have step: "pool_loop cdfs nearby stn i min_obs own sc ?n it
          = pool_loop cdfs nearby stn i min_obs own ?sc' (length ?sc') (Suc it)"
      using pool_loop_step[OF True it nbit, of own sc] by (simp only: sc')
    have below: "\<forall>j<Suc it. int (length (pooled_values own nbr j)) < min_obs"
      using Suc.prems(3) True by (simp add: less_Suc_eq)
    have d: "d = 5 - Suc it" using Suc.hyps(2) by simp
    have le: "Suc it \<le> 5" using it by simp
    from Suc.hyps(1)[OF d le _ below, of ?sc']
    obtain k where k: "Suc it \<le> k" "pool_stop own nbr min_obs k"
      "pool_loop cdfs nearby stn i min_obs own ?sc' (length ?sc') (Suc it)
         = Inr (if k = 0 then ?sc' else pooled_values own nbr k, length (pooled_values own nbr k), k)"
      by blast
    from k(1) have k0: "k \<noteq> 0" "it \<le> k" by simp_all
    show ?thesis
      using k(2) k0 by (intro exI[of _ k]) (simp only: step k(3) if_False simp_thms)
  qed
qed

lemma remediate_station_other:
  "remediate_station nearby min_obs i cdfs s = Inr c' \<Longrightarrow> key \<noteq> int s \<Longrightarrow> c' key = cdfs key"
  by (auto simp: remediate_station_def Let_def split: sum.splits if_splits prod.splits)

lemma add_nearby_skips:
  assumes "add_nearby_stations_to_cdfs cdfs measured_var nearby min_obs = Inr c'"
    and "stn \<notin> set (stations_with_values measured_var)"
  shows "c' (int stn) = cdfs (int stn)"
proof -
  let ?P = "\<lambda>c. c (int stn) = cdfs (int stn)"
  have inner: "?P b"
    if "remediate_month nearby min_obs (stations_with_values measured_var) a i = Inr b" "?P a" for a b i
    using that(1)[unfolded remediate_month_def] that(2)
  proof (rule efoldl_invariant[where P = ?P])
    fix a x b assume "x \<in> set (stations_with_values measured_var)"
      "remediate_station nearby min_obs i a x = Inr b" "?P a"
    then show "?P b" using assms(2) remediate_station_other[of nearby min_obs i a x b "int stn"] by auto
  qed
  show ?thesis
    using assms(1) unfolding add_nearby_stations_to_cdfs_def
    by (rule efoldl_invariant[where P = ?P]) (auto intro: inner)
qed

text \<open>
  C6 as stated fails for a station without any non-missing value: its tables have fewer
  than \<open>min_obs\<close> observations, a neighbour with values is ranked first, and yet the
  function leaves the tables as they are, because only stations with a value are visited.
\<close>

theorem add_nearby_skips_empty_station:
  "station_table [0 \<mapsto> (\<lambda>m. Some \<lparr>Value = [], CDF = []\<rparr>), 1 \<mapsto> (\<lambda>m. Some \<lparr>Value = [7], CDF = [1]\<rparr>)] 0 1
       = Inr \<lparr>Value = [], CDF = []\<rparr>
   \<and> near_station_cdf [0 \<mapsto> (\<lambda>m. Some \<lparr>Value = [], CDF = []\<rparr>), 1 \<mapsto> (\<lambda>m. Some \<lparr>Value = [7], CDF = [1]\<rparr>)]
         [[1, 1, 1, 1, 1], [0, 0, 0, 0, 0]] 0 1 0 = Inr \<lparr>Value = [7], CDF = [1]\<rparr>
   \<and> add_nearby_stations_to_cdfs
         [0 \<mapsto> (\<lambda>m. Some \<lparr>Value = [], CDF = []\<rparr>), 1 \<mapsto> (\<lambda>m. Some \<lparr>Value = [7], CDF = [1]\<rparr>)]
         [[None, None], [Some 7, None]] [[1, 1, 1, 1, 1], [0, 0, 0, 0, 0]] 1
       = Inr [0 \<mapsto> (\<lambda>m. Some \<lparr>Value = [], CDF = []\<rparr>), 1 \<mapsto> (\<lambda>m. Some \<lparr>Value = [7], CDF = [1]\<rparr>)]"
proof -
  let ?c = "[0 \<mapsto> (\<lambda>m. Some \<lparr>Value = [], CDF = []\<rparr>), 1 \<mapsto> (\<lambda>m. Some \<lparr>Value = [7::real], CDF = [1::real]\<rparr>)] :: station_cdfs"
  have sw: "stations_with_values [[None, None], [Some 7, None]] = [1]"
    by (simp add: stations_with_values_def upt_rec)
  have body: "remediate_station [[1, 1, 1, 1, 1], [0, 0, 0, 0, 0]] 1 i ?c 1 = Inr ?c" for i
    by (simp add: remediate_station_def station_table_def)
  have stations: "remediate_month [[1, 1, 1, 1, 1], [0, 0, 0, 0, 0]] 1 [1] ?c i = Inr ?c" for i
    by (simp only: remediate_month_def efoldl.simps body sum.case)
  have months: "efoldl (remediate_month [[1, 1, 1, 1, 1], [0, 0, 0, 0, 0]] 1 [1]) ?c ms = Inr ?c" for ms
    by (induction ms) (simp_all only: efoldl.simps stations sum.case)
  have "add_nearby_stations_to_cdfs ?c [[None, None], [Some 7, None]] [[1, 1, 1, 1, 1], [0, 0, 0, 0, 0]] 1 = Inr ?c"
    by (simp only: add_nearby_stations_to_cdfs_def sw months)
  then show ?thesis
    by (simp add: station_table_def near_station_cdf_def)
qed

text \<open>
  C6, amended. A station without any non-missing value is skipped and keeps its tables.
  For a station that is visited, a month whose table has fewer than \<open>min_obs\<close> values,
  and a neighbour ranking whose first five entries name stations with a table for that
  month: the loop appends the neighbours' values one neighbour at a time in ranking
  order, stops at the first count \<open>k \<ge> 1\<close> of neighbours at which the pool reaches
  \<open>min_obs\<close>, or at \<open>k = 5\<close>, and the table is rebuilt from the pool with no error, also
  when the pool is still below \<open>min_obs\<close>.
\<close>

theorem remediation_pools_neighbours:
  assumes own: "cdfs (int stn) = Some months" "months i = Some tbl"
    and sparse: "int (length (Value tbl)) < min_obs"
    and nb: "\<forall>j<5. near_station_cdf cdfs nearby stn i j = Inr (nbr j)"
  shows "(\<exists>k. 1 \<le> k \<and> pool_stop (Value tbl) nbr min_obs k
           \<and> pool_loop cdfs nearby stn i min_obs (Value tbl) [] (length (Value tbl)) 0
               = Inr (pooled_values (Value tbl) nbr k, length (pooled_values (Value tbl) nbr k), k)
           \<and> remediate_station nearby min_obs i cdfs stn
               = Inr (cdfs(int stn \<mapsto> months(i \<mapsto> create_cdf_df (map Some (pooled_values (Value tbl) nbr k))))))
         \<and> (\<forall>c' measured_var s. add_nearby_stations_to_cdfs cdfs measured_var nearby min_obs = Inr c'
                \<longrightarrow> s \<notin> set (stations_with_values measured_var) \<longrightarrow> c' (int s) = cdfs (int s))"
proof -
  let ?own = "Value tbl"
  from pool_loop_spec[OF nb, of 0 "[]" ?own min_obs]
  obtain k where k: "pool_stop ?own nbr min_obs k"
    "pool_loop cdfs nearby stn i min_obs ?own [] (length (pooled_values ?own nbr 0)) 0
       = Inr (if k = 0 then [] else pooled_values ?own nbr k, length (pooled_values ?own nbr k), k)"
    by auto
  have k1: "1 \<le> k"
  proof (rule ccontr)
    assume "\<not> 1 \<le> k"
    then have "k = 0" by simp
    with k(1) sparse show False by (simp add: pool_stop_def pooled_values_0)
  qed
  then have loop: "pool_loop cdfs nearby stn i min_obs ?own [] (length ?own) 0
       = Inr (pooled_values ?own nbr k, length (pooled_values ?own nbr k), k)"
    using k(2) by (simp add: pooled_values_0)
  have tbl: "station_table cdfs (int stn) i = Inr tbl"
    using own by (simp add: station_table_def)
  have "remediate_station nearby min_obs i cdfs stn
      = Inr (cdfs(int stn \<mapsto> months(i \<mapsto> create_cdf_df (map Some (pooled_values ?own nbr k)))))"
    using sparse own(1) by (simp add: remediate_station_def tbl Let_def loop)
  with k1 k(1) loop show ?thesis using add_nearby_skips by blast
qed

lemma length_pooled_values_const:
  "length (pooled_values own (\<lambda>j. t) k) = length own + k * length (Value t)"
  by (induction k) (simp_all add: pooled_values_0 pooled_values_Suc)

theorem remediation_pools_neighbours_witness:
  "remediate_station [[1, 1, 1, 1, 1]] 20 1
      [0 \<mapsto> [1 \<mapsto> \<lparr>Value = [3], CDF = [1]\<rparr>], 1 \<mapsto> [1 \<mapsto> \<lparr>Value = [5], CDF = [1]\<rparr>]] 0
    = Inr ([0 \<mapsto> [1 \<mapsto> \<lparr>Value = [3], CDF = [1]\<rparr>], 1 \<mapsto> [1 \<mapsto> \<lparr>Value = [5], CDF = [1]\<rparr>]]
            (0 \<mapsto> [1 \<mapsto> \<lparr>Value = [3], CDF = [1]\<rparr>]
                    (1 \<mapsto> create_cdf_df (map Some [3, 5, 5, 5, 5, 5]))))"
proof -
  let ?t0 = "\<lparr>Value = [3::real], CDF = [1::real]\<rparr>"
  let ?t1 = "\<lparr>Value = [5::real], CDF = [1::real]\<rparr>"
  let ?cdfs = "[0 \<mapsto> [1 \<mapsto> ?t0], 1 \<mapsto> [1 \<mapsto> ?t1]] :: station_cdfs"
  have nb: "\<forall>j<5. near_station_cdf ?cdfs [[1, 1, 1, 1, 1]] 0 1 j = Inr ((\<lambda>j. ?t1) j)"
  proof (intro allI impI)
    fix j :: nat assume "j < 5"
    then have "j = 0 \<or> j = 1 \<or> j = 2 \<or> j = 3 \<or> j = 4" by arith
    then show "near_station_cdf ?cdfs [[1, 1, 1, 1, 1]] 0 1 j = Inr ?t1"
      by (auto simp: near_station_cdf_def station_table_def)
  qed
  from remediation_pools_neighbours[of ?cdfs 0 "[1 \<mapsto> ?t0]" 1 ?t0 20 "[[1, 1, 1, 1, 1]]" "\<lambda>j. ?t1", OF _ _ _ nb]
  obtain k where k: "pool_stop [3] (\<lambda>j. ?t1) 20 k"
    "remediate_station [[1, 1, 1, 1, 1]] 20 1 ?cdfs 0
       = Inr (?cdfs(0 \<mapsto> [1 \<mapsto> ?t0](1 \<mapsto> create_cdf_df (map Some (pooled_values [3] (\<lambda>j. ?t1) k)))))"
    by auto
  from k(1) have "k = 5"
    by (auto simp: pool_stop_def length_pooled_values_const)
  moreover have "pooled_values [3] (\<lambda>j. ?t1) 5 = [3, 5, 5, 5, 5, 5]"
    by (simp add: pooled_values_def upt_rec)
  ultimately show ?thesis using k(2) by simp
qed

section \<open>Properties of the quantile-normal transform\<close>

subsection \<open>Frames\<close>

lemma length_assign_cells: "length (assign_cells sel val fr) = length fr"
  by (simp add: assign_cells_def)

lemma assign_cells_row_length:
  "t < length fr \<Longrightarrow> length (assign_cells sel val fr ! t) = length (fr ! t)"
  by (simp add: assign_cells_def nth_enumerate_eq)

lemma assign_cells_nth:
  "t < length fr \<Longrightarrow> j < length (fr ! t) \<Longrightarrow>
     assign_cells sel val fr ! t ! j = (if sel t j then val t j else fr ! t ! j)"
  by (simp add: assign_cells_def nth_enumerate_eq)

lemma frame_shape_assign_cells:
  "frame_shape nt nc fr \<Longrightarrow> frame_shape nt nc (assign_cells sel val fr)"
  by (simp add: frame_shape_def length_assign_cells assign_cells_row_length)

lemma frame_shape_nan_frame: "frame_shape nt nc (nan_frame nt nc)"
  by (simp add: frame_shape_def nan_frame_def)

lemma frame_shape_map: "frame_shape nt nc fr \<Longrightarrow> frame_shape nt nc (map (map f) fr)"
  by (simp add: frame_shape_def)

lemma frame_shape_remove: "frame_shape nt nc fr \<Longrightarrow> frame_shape nt nc (remove_nan_stations cs fr)"
  by (simp add: frame_shape_def remove_nan_stations_def)

lemma remove_nan_stations_nth:
  "t < length fr \<Longrightarrow> j < length (fr ! t) \<Longrightarrow>
     remove_nan_stations cs fr ! t ! j = (if j \<in> set cs then None else fr ! t ! j)"
  by (simp add: remove_nan_stations_def nth_enumerate_eq)

lemma efoldl_total:
  assumes "\<And>a x. x \<in> set xs \<Longrightarrow> \<exists>b. f a x = Inr b"
  shows "\<exists>s'. efoldl f s xs = Inr s'"
  using assms
proof (induction xs arbitrary: s)
  case Nil
  then show ?case by simp
next
  case (Cons x xs)
  from Cons.prems[of x s] obtain s1 where s1: "f s x = Inr s1" by auto
  from Cons.IH[of s1] Cons.prems obtain s' where "efoldl f s1 xs = Inr s'" by auto
  with s1 show ?case by simp
qed

subsection \<open>The value at the largest table entry\<close>








subsection \<open>Stations without any value\<close>

lemma nqt_station_step_shape:
  "nqt_station_step lib df ts cdfs month td station = Inr td' \<Longrightarrow> frame_shape nt nc td
     \<Longrightarrow> frame_shape nt nc td'"
  by (auto simp: nqt_station_step_def frame_shape_assign_cells split: sum.splits)

lemma nqt_pooled_step_shape:
  "nqt_pooled_step lib df ts cdfs month td = Inr td' \<Longrightarrow> frame_shape nt nc td
     \<Longrightarrow> frame_shape nt nc td'"
  by (auto simp: nqt_pooled_step_def frame_shape_assign_cells split: sum.splits)

lemma nqt_month_step_ok:
  assumes "nqt_month_step lib df ts cdfs is_pooled ncols cs min_z st month = Inr st'"
    and "frame_shape nt nc (fst st)"
  shows "frame_shape nt nc (fst st')
      \<and> (\<exists>td. frame_shape nt nc td \<and> snd st' = Some (remove_nan_stations cs (map (map (nan_to_num min_z)) td)))"
proof -
  from assms(1) obtain td where
    td: "(if is_pooled then nqt_pooled_step lib df ts cdfs month (fst st)
            else efoldl (nqt_station_step lib df ts cdfs month) (fst st) [0..<ncols]) = Inr td"
    and st': "st' = (td, Some (remove_nan_stations cs (map (map (nan_to_num min_z)) td)))"
    by (auto simp: nqt_month_step_def Let_def split: sum.splits)
  have "frame_shape nt nc td"
  proof (cases is_pooled)
    case True
    with td assms(2) show ?thesis by (auto dest: nqt_pooled_step_shape)
  next
    case False
    with td have "efoldl (nqt_station_step lib df ts cdfs month) (fst st) [0..<ncols] = Inr td" by simp
    then show ?thesis using assms(2)
      by (rule efoldl_invariant) (rule nqt_station_step_shape)
  qed
  then show ?thesis using st' by auto
qed

lemma nqt_months_result:
  assumes "efoldl (nqt_month_step lib df ts cdfs is_pooled ncols cs min_z) st ms = Inr st'"
    and "frame_shape nt nc (fst st)" and "ms \<noteq> []"
  shows "\<exists>td. frame_shape nt nc td \<and> snd st' = Some (remove_nan_stations cs (map (map (nan_to_num min_z)) td))"
  using assms
proof (induction ms arbitrary: st)
  case Nil
  then show ?case by simp
next
  case (Cons m ms)
  from Cons.prems(1) obtain s1 where
    s1: "nqt_month_step lib df ts cdfs is_pooled ncols cs min_z st m = Inr s1"
      "efoldl (nqt_month_step lib df ts cdfs is_pooled ncols cs min_z) s1 ms = Inr st'"
    by (auto split: sum.splits)
  from nqt_month_step_ok[OF s1(1) Cons.prems(2)]
  have ok: "frame_shape nt nc (fst s1)"
    "\<exists>td. frame_shape nt nc td \<and> snd s1 = Some (remove_nan_stations cs (map (map (nan_to_num min_z)) td))"
    by auto
  show ?case
  proof (cases ms)
    case Nil
    with s1(2) have "st' = s1" by simp
    with ok(2) show ?thesis by simp
  next
    case (Cons a list)
    then have "ms \<noteq> []" by simp
    from Cons.IH[OF s1(2) ok(1) this] show ?thesis .
  qed
qed

lemma nan_columns_iff:
  "j \<in> set (nan_columns cols) \<longleftrightarrow> j < length cols \<and> list_all (\<lambda>v. v = None) (cols ! j)"
  by (auto simp: nan_columns_def)

lemma nqt_partial:
  assumes run: "normal_quantile_transform lib data ts cdfs settings = Inr out"
    and df: "data_frame data ts = Inr cols"
    and st: "station < length cols" "list_all (\<lambda>v. v = None) (cols ! station)"
  shows "length out = length ts \<and> (\<forall>row \<in> set out. station < length row \<and> row ! station = None)"
proof -
  let ?nt = "length ts" and ?nc = "length cols"
  let ?step = "nqt_month_step lib (frame_of_columns ?nt cols) ts cdfs (get_default True (pooled settings))
      ?nc (nan_columns cols) (get_default (- 4) (min_z_value settings))"
  from run df obtain st' where
    fold: "efoldl ?step (nan_frame ?nt ?nc, None) [1..<13] = Inr st'" and out: "snd st' = Some out"
    by (auto simp: normal_quantile_transform_def Let_def split: sum.splits option.splits prod.splits)
  have "[1..<13] \<noteq> ([]::nat list)" by simp
  from nqt_months_result[OF fold _ this, of ?nt ?nc] frame_shape_nan_frame[of ?nt ?nc] out
  obtain td where td: "frame_shape ?nt ?nc td"
    "out = remove_nan_stations (nan_columns cols) (map (map (nan_to_num (get_default (- 4) (min_z_value settings)))) td)"
    by auto
  let ?filled = "map (map (nan_to_num (get_default (- 4) (min_z_value settings)))) td"
  have fs: "frame_shape ?nt ?nc ?filled" using td(1) by (rule frame_shape_map)
  then have os: "frame_shape ?nt ?nc out" unfolding td(2) by (rule frame_shape_remove)
  have mem: "station \<in> set (nan_columns cols)" using st by (simp add: nan_columns_iff)
  have cell: "out ! t ! station = None" if "t < ?nt" for t
  proof -
    have "t < length ?filled" "station < length (?filled ! t)"
      using fs that st(1) by (auto simp: frame_shape_def)
    then show ?thesis unfolding td(2) using mem by (simp only: remove_nan_stations_nth if_True)
  qed
  show ?thesis
  proof (intro conjI ballI)
    show "length out = ?nt" using os by (simp add: frame_shape_def)
  next
    fix row assume "row \<in> set out"
    then obtain t where t: "t < length out" "row = out ! t" by (auto simp: in_set_conv_nth)
    then have "t < ?nt" using os by (simp add: frame_shape_def)
    then show "station < length row" using os t st(1) by (simp add: frame_shape_def)
  next
    fix row assume "row \<in> set out"
    then obtain t where t: "t < length out" "row = out ! t" by (auto simp: in_set_conv_nth)
    then have "t < ?nt" using os by (simp add: frame_shape_def)
    then show "row ! station = None" using cell t by simp
  qed
qed

lemma nqt_returns:
  assumes df: "data_frame data ts = Inr cols"
    and tables: "\<forall>month \<in> {1..12}.
        if get_default True (pooled settings) then (\<exists>r. pooled_cdf cdfs month = Inr r)
        else (\<forall>station < length cols. \<exists>tbl. station_cdf cdfs station month = Inr tbl)"
  shows "\<exists>out. normal_quantile_transform lib data ts cdfs settings = Inr out"
proof -
  let ?nt = "length ts" and ?nc = "length cols"
  let ?step = "nqt_month_step lib (frame_of_columns ?nt cols) ts cdfs (get_default True (pooled settings))
      ?nc (nan_columns cols) (get_default (- 4) (min_z_value settings))"
  have step: "\<exists>b. ?step a month = Inr b" if "month \<in> set [1..<13]" for a month
  proof (cases "get_default True (pooled settings)")
    case True
    with tables that obtain r where "pooled_cdf cdfs month = Inr r" by fastforce
    with True show ?thesis by (simp add: nqt_month_step_def nqt_pooled_step_def Let_def)
  next
    case False
    with tables that have all: "\<forall>station < ?nc. \<exists>tbl. station_cdf cdfs station month = Inr tbl"
      by fastforce
    have "\<exists>td. efoldl (nqt_station_step lib (frame_of_columns ?nt cols) ts cdfs month) (fst a) [0..<?nc] = Inr td"
    proof (rule efoldl_total)
      fix a' x assume "x \<in> set [0..<?nc]"
      with all obtain tbl where "station_cdf cdfs x month = Inr tbl" by auto
      then show "\<exists>b. nqt_station_step lib (frame_of_columns ?nt cols) ts cdfs month a' x = Inr b"
        by (simp add: nqt_station_step_def)
    qed
    with False show ?thesis by (auto simp: nqt_month_step_def Let_def)
  qed
  obtain st' where fold: "efoldl ?step (nan_frame ?nt ?nc, None) [1..<13] = Inr st'"
    using efoldl_total[of "[1..<13]" ?step "(nan_frame ?nt ?nc, None)"] step by blast
  have "[1..<13] \<noteq> ([]::nat list)" by simp
  from nqt_months_result[OF fold _ this, of ?nt ?nc] frame_shape_nan_frame[of ?nt ?nc]
  obtain f where "snd st' = Some f" by auto
  then have "normal_quantile_transform lib data ts cdfs settings = Inr f"
    using df fold by (cases st') (simp add: normal_quantile_transform_def Let_def)
  then show ?thesis ..
qed

text \<open>
  C1. When the input is accepted as a frame and every table that the loops look up is
  there, the forward transform returns an array with one row per timestamp in which
  every cell of a station whose input cells are all NaN is NaN: the removal of these
  stations comes after the fill with \<open>min_z_value\<close> and overwrites it.
\<close>

theorem all_nan_station_stays_nan:
  assumes df: "data_frame data ts = Inr cols"
    and tables: "\<forall>month \<in> {1..12}.
        if get_default True (pooled settings) then (\<exists>r. pooled_cdf cdfs month = Inr r)
        else (\<forall>station < length cols. \<exists>tbl. station_cdf cdfs station month = Inr tbl)"
    and st: "station < length cols" "list_all (\<lambda>v. v = None) (cols ! station)"
  shows "\<exists>out. normal_quantile_transform lib data ts cdfs settings = Inr out
           \<and> length out = length ts
           \<and> (\<forall>row \<in> set out. station < length row \<and> row ! station = None)"
proof -
  from nqt_returns[OF df tables] obtain out
    where out: "normal_quantile_transform lib data ts cdfs settings = Inr out" ..
  from nqt_partial[OF out df st] out show ?thesis by blast
qed

theorem all_nan_station_stays_nan_witness:
  "\<exists>out. normal_quantile_transform
            \<lparr>norm_ppf = Some, norm_cdf = Some, gamma_cdf = \<lambda>x a s. Some x, gamma_ppf = \<lambda>q a s. Some q\<rparr>
            (Arr2 [[None, None], [Some 3, None]]) [1, 2]
            (PooledCdfs (\<lambda>month. Some \<lparr>Value = [3], CDF = [1]\<rparr>))
            \<lparr>pooled = None, min_num_obs = None, add_noise = None, min_z_value = None,
              min_est_value = None, exponent = None, interp_method = None\<rparr> = Inr out
         \<and> length out = 2 \<and> out ! 0 ! 0 = None \<and> out ! 1 ! 0 = None"
proof -
  let ?lib = "\<lparr>norm_ppf = Some, norm_cdf = Some, gamma_cdf = \<lambda>x a s. Some x, gamma_ppf = \<lambda>q a s. Some q\<rparr>"
  let ?s = "\<lparr>pooled = None, min_num_obs = None, add_noise = None, min_z_value = None,
              min_est_value = None, exponent = None, interp_method = None\<rparr>"
  let ?cdfs = "PooledCdfs (\<lambda>month. Some \<lparr>Value = [3], CDF = [1]\<rparr>)"
  have df: "data_frame (Arr2 [[None, None], [Some 3, None]]) [1, 2] = Inr [[None, None], [Some 3, None]]"
    by (simp add: data_frame_def)
  have tables: "\<forall>month \<in> {1..12}.
        if get_default True (pooled ?s) then (\<exists>r. pooled_cdf ?cdfs month = Inr r)
        else (\<forall>station < length [[None, None], [Some (3::real), None]]. \<exists>tbl. station_cdf ?cdfs station month = Inr tbl)"
    by (simp add: get_default_def pooled_cdf_def)
  from all_nan_station_stays_nan[OF df tables, of 0 ?lib]
  obtain out where out: "normal_quantile_transform ?lib (Arr2 [[None, None], [Some 3, None]]) [1, 2] ?cdfs ?s = Inr out"
    "length out = 2" "\<forall>row \<in> set out. row ! 0 = None"
    by auto
  from out(2) have "out ! 0 \<in> set out" "out ! 1 \<in> set out" by simp_all
  with out show ?thesis by blast
qed

section \<open>Properties of the inverse transforms\<close>

subsection \<open>Loops that write cells\<close>

lemma efoldl_cells:
  fixes Q :: "nat \<Rightarrow> nat \<Rightarrow> fl \<Rightarrow> bool" and hit :: "'a \<Rightarrow> nat \<Rightarrow> nat \<Rightarrow> bool"
  assumes step: "\<And>b x b'. x \<in> set xs \<Longrightarrow> f b x = Inr b' \<Longrightarrow> frame_shape nt nc b \<Longrightarrow>
        frame_shape nt nc b' \<and>
        (\<forall>t<nt. \<forall>j<nc. (hit x t j \<longrightarrow> Q t j (b' ! t ! j)) \<and> (Q t j (b ! t ! j) \<longrightarrow> Q t j (b' ! t ! j)))"
    and run: "efoldl f b xs = Inr b'" and shape: "frame_shape nt nc b"
  shows "frame_shape nt nc b' \<and>
         (\<forall>t<nt. \<forall>j<nc. ((\<exists>x \<in> set xs. hit x t j) \<or> Q t j (b ! t ! j)) \<longrightarrow> Q t j (b' ! t ! j))"
  using assms
proof (induction xs arbitrary: b)
  case Nil
  then show ?case by simp
next
  case (Cons x xs)
  from Cons.prems(2) obtain b1 where b1: "f b x = Inr b1" "efoldl f b1 xs = Inr b'"
    by (auto split: sum.splits)
  have s1: "frame_shape nt nc b1"
    and w1: "\<forall>t<nt. \<forall>j<nc. (hit x t j \<longrightarrow> Q t j (b1 ! t ! j)) \<and> (Q t j (b ! t ! j) \<longrightarrow> Q t j (b1 ! t ! j))"
    using Cons.prems(1)[of x b b1] b1(1) Cons.prems(3) by simp_all
  have step': "\<And>b x b'. x \<in> set xs \<Longrightarrow> f b x = Inr b' \<Longrightarrow> frame_shape nt nc b \<Longrightarrow>
        frame_shape nt nc b' \<and>
        (\<forall>t<nt. \<forall>j<nc. (hit x t j \<longrightarrow> Q t j (b' ! t ! j)) \<and> (Q t j (b ! t ! j) \<longrightarrow> Q t j (b' ! t ! j)))"
    by (rule Cons.prems(1)) simp_all
  from Cons.IH[OF step' b1(2) s1]
  have ih: "frame_shape nt nc b'"
    "\<forall>t<nt. \<forall>j<nc. ((\<exists>x \<in> set xs. hit x t j) \<or> Q t j (b1 ! t ! j)) \<longrightarrow> Q t j (b' ! t ! j)"
    by simp_all
  show ?case
  proof (intro conjI allI impI)
    show "frame_shape nt nc b'" by (rule ih(1))
  next
    fix t j assume t: "t < nt" and j: "j < nc"
      and h: "(\<exists>x \<in> set (x # xs). hit x t j) \<or> Q t j (b ! t ! j)"
    from h have "(\<exists>x \<in> set xs. hit x t j) \<or> Q t j (b1 ! t ! j)"
      using w1 t j by auto
    then show "Q t j (b' ! t ! j)" using ih(2) t j by blast
  qed
qed

lemma assign_cells_writer:
  assumes shape: "frame_shape nt nc b"
    and val: "\<And>t j. t < nt \<Longrightarrow> j < nc \<Longrightarrow> sel t j \<Longrightarrow> Q t j (val t j)"
    and hit: "\<And>t j. t < nt \<Longrightarrow> j < nc \<Longrightarrow> hit t j \<Longrightarrow> sel t j"
  shows "frame_shape nt nc (assign_cells sel val b) \<and>
        (\<forall>t<nt. \<forall>j<nc. (hit t j \<longrightarrow> Q t j (assign_cells sel val b ! t ! j))
                       \<and> (Q t j (b ! t ! j) \<longrightarrow> Q t j (assign_cells sel val b ! t ! j)))"
proof (intro conjI allI impI)
  show "frame_shape nt nc (assign_cells sel val b)"
    using shape by (rule frame_shape_assign_cells)
next
  fix t j assume t: "t < nt" and j: "j < nc" and h: "hit t j"
  have "assign_cells sel val b ! t ! j = (if sel t j then val t j else b ! t ! j)"
    using shape t j by (intro assign_cells_nth) (simp_all add: frame_shape_def)
  then show "Q t j (assign_cells sel val b ! t ! j)"
    using hit[OF t j h] val[OF t j] by simp
next
  fix t j assume t: "t < nt" and j: "j < nc" and q: "Q t j (b ! t ! j)"
  have "assign_cells sel val b ! t ! j = (if sel t j then val t j else b ! t ! j)"
    using shape t j by (intro assign_cells_nth) (simp_all add: frame_shape_def)
  then show "Q t j (assign_cells sel val b ! t ! j)"
    using q val[OF t j] by simp
qed

subsection \<open>Inverse quantile-normal transform\<close>

lemma back_value_physical: "physical m (back_value m v)"
  by (auto simp: physical_def back_value_def filter_small_def nan_to_num_def split: option.splits)

lemma inqt_values_physical: "inqt_values lib interp m tbl = Inr f \<Longrightarrow> physical m (f z)"
proof -
  assume a: "inqt_values lib interp m tbl = Inr f"
  have zero: "physical m (Some 0)" by (simp add: physical_def)
  from a consider "f = (\<lambda>z. Some 0)"
    | tb where "f = (\<lambda>z. back_value m (value_interp tb (Option.bind z (norm_cdf lib))))"
    by (auto simp: inqt_values_def Let_def split: option.splits if_splits)
  then show ?thesis
  proof cases
    case 1
    then show ?thesis using zero by simp
  next
    case 2
    then show ?thesis by (simp add: back_value_physical)
  qed
qed

lemma inqt_pooled_step_writer:
  assumes "inqt_pooled_step lib td time cdfs interp m ncols month b = Inr b'" and "frame_shape nt nc b"
  shows "frame_shape nt nc b' \<and>
        (\<forall>t<nt. \<forall>j<nc. (time ! t = month \<longrightarrow> physical m (b' ! t ! j))
                       \<and> (physical m (b ! t ! j) \<longrightarrow> physical m (b' ! t ! j)))"
proof -
  from assms(1) obtain tbl f where f: "inqt_values lib interp m tbl = Inr f"
    and b': "b' = assign_cells (\<lambda>t j. time ! t = month) (\<lambda>t j. f (td ! t ! j)) b"
    by (auto simp: inqt_pooled_step_def split: sum.splits if_splits)
  show ?thesis unfolding b'
    by (rule assign_cells_writer[OF assms(2)]) (simp_all add: inqt_values_physical[OF f])
qed

lemma inqt_station_step_writer:
  assumes "inqt_station_step lib td time cdfs interp m month b station = Inr b'" and "frame_shape nt nc b"
  shows "frame_shape nt nc b' \<and>
        (\<forall>t<nt. \<forall>j<nc. (j = station \<and> time ! t = month \<longrightarrow> physical m (b' ! t ! j))
                       \<and> (physical m (b ! t ! j) \<longrightarrow> physical m (b' ! t ! j)))"
proof -
  from assms(1) obtain tbl f where f: "inqt_values lib interp m tbl = Inr f"
    and b': "b' = assign_cells (\<lambda>t j. j = station \<and> time ! t = month) (\<lambda>t j. f (td ! t ! j)) b"
    by (auto simp: inqt_station_step_def split: sum.splits)
  show ?thesis unfolding b'
    by (rule assign_cells_writer[OF assms(2)]) (simp_all add: inqt_values_physical[OF f])
qed

lemma inqt_month_step_writer:
  assumes run: "inqt_month_step lib td time cdfs is_pooled interp m nc b month = Inr b'"
    and shape: "frame_shape nt nc b"
  shows "frame_shape nt nc b' \<and>
        (\<forall>t<nt. \<forall>j<nc. (time ! t = month \<longrightarrow> physical m (b' ! t ! j))
                       \<and> (physical m (b ! t ! j) \<longrightarrow> physical m (b' ! t ! j)))"
proof (cases is_pooled)
  case True
  with run have "inqt_pooled_step lib td time cdfs interp m nc month b = Inr b'"
    by (simp add: inqt_month_step_def)
  then show ?thesis using shape by (rule inqt_pooled_step_writer)
next
  case False
  with run have fold: "efoldl (inqt_station_step lib td time cdfs interp m month) b [0..<nc] = Inr b'"
    by (simp add: inqt_month_step_def)
  have "frame_shape nt nc b' \<and>
         (\<forall>t<nt. \<forall>j<nc. ((\<exists>x \<in> set [0..<nc]. j = x \<and> time ! t = month) \<or> physical m (b ! t ! j))
              \<longrightarrow> physical m (b' ! t ! j))"
    by (rule efoldl_cells[where hit = "\<lambda>x t j. j = x \<and> time ! t = month" and Q = "\<lambda>t j. physical m",
          OF _ fold shape])
      (rule inqt_station_step_writer)
  then show ?thesis by auto
qed

lemma inqt_loop_physical:
  assumes run: "inqt_loop lib time cdfs settings cols = Inr back"
    and months: "\<forall>mo \<in> set time. 1 \<le> mo \<and> mo \<le> 12"
  shows "frame_shape (length time) (length cols) back \<and>
         (\<forall>t<length time. \<forall>j<length cols.
            physical (get_default 0.01 (min_est_value settings)) (back ! t ! j))"
proof -
  let ?nt = "length time" and ?nc = "length cols"
  let ?m = "get_default 0.01 (min_est_value settings)"
  let ?step = "inqt_month_step lib (frame_of_columns ?nt cols) time cdfs
      (get_default True (pooled settings)) (get_default ''interp1d'' (interp_method settings)) ?m ?nc"
  from run have fold: "efoldl ?step (nan_frame ?nt ?nc) [1..<13] = Inr back"
    by (simp add: inqt_loop_def Let_def)
  have res: "frame_shape ?nt ?nc back \<and>
         (\<forall>t<?nt. \<forall>j<?nc. ((\<exists>x \<in> set [1..<13]. time ! t = x) \<or> physical ?m (nan_frame ?nt ?nc ! t ! j))
              \<longrightarrow> physical ?m (back ! t ! j))"
    by (rule efoldl_cells[where hit = "\<lambda>x t j. time ! t = x" and Q = "\<lambda>t j. physical ?m",
          OF _ fold frame_shape_nan_frame])
      (rule inqt_month_step_writer)
  have "\<exists>x \<in> set [1..<13]. time ! t = x" if "t < ?nt" for t
  proof -
    from that have "time ! t \<in> set time" by simp
    with months have "1 \<le> time ! t \<and> time ! t \<le> 12" by blast
    then show ?thesis by simp
  qed
  with res show ?thesis by blast
qed

lemma frame_cells:
  assumes "frame_shape nt nc fr" and "v \<in> set (concat fr)"
  shows "\<exists>t<nt. \<exists>j<nc. v = fr ! t ! j"
proof -
  from assms(2) obtain row where row: "row \<in> set fr" "v \<in> set row" by auto
  then obtain t j where "t < length fr" "row = fr ! t" "j < length row" "v = row ! j"
    by (auto simp: in_set_conv_nth)
  with assms(1) show ?thesis by (auto simp: frame_shape_def)
qed

lemma grid_index: "r < nr \<Longrightarrow> c < nc \<Longrightarrow> r * nc + c < nr * (nc::nat)"
proof -
  assume r: "r < nr" and c: "c < nc"
  have "r * nc + c < r * nc + nc" using c by simp
  also have "\<dots> = Suc r * nc" by simp
  also have "\<dots> \<le> nr * nc" using r by (intro mult_le_mono1) simp
  finally show ?thesis .
qed

lemma length_concat_rect:
  "list_all (\<lambda>row. length row = nc) g \<Longrightarrow> length (concat g) = length g * nc"
  by (induction g) simp_all

lemma to_grid_cells:
  assumes "v \<in> set (concat (concat (to_grid nr nc nt fr)))"
  shows "\<exists>r<nr. \<exists>c<nc. \<exists>t<nt. v = fr ! t ! (r * nc + c)"
proof -
  from assms obtain r c t where "r < nr" "c < nc" "t < nt" "v = fr ! t ! (r * nc + c)"
    by (auto simp: to_grid_def)
  then show ?thesis by blast
qed

subsection \<open>Inverse gamma transform\<close>

lemma frame_of_columns_nth:
  "t < nt \<Longrightarrow> j < length cols \<Longrightarrow> frame_of_columns nt cols ! t ! j = cols ! j ! t"
  by (simp add: frame_of_columns_def)

lemma month_has_row: "list_ex (\<lambda>t. time ! t = month) [0..<length time] \<longleftrightarrow> (\<exists>t<length time. time ! t = month)"
  by (auto simp: list_ex_iff)

lemma gbt_station_month_step_writer:
  fixes ds :: station_gamma
  defines "Q \<equiv> \<lambda>lib td time m t j v. v = back_value m (np_gamma_ppf lib (cum_probs_station lib (td ! t ! j))
                 (param_at (gamma_shape ds) (j, time ! t)) (param_at (gamma_scale ds) (j, time ! t)))"
  assumes run: "gbt_station_month_step lib td time ds m nc b month = Inr b'"
    and shape: "frame_shape (length time) nc b"
  shows "frame_shape (length time) nc b' \<and>
        (\<forall>t<length time. \<forall>j<nc. (time ! t = month \<longrightarrow> Q lib td time m t j (b' ! t ! j))
                       \<and> (Q lib td time m t j (b ! t ! j) \<longrightarrow> Q lib td time m t j (b' ! t ! j)))"
proof (cases "\<not> list_ex (\<lambda>t. time ! t = month) [0..<length time] \<or> nc = 0")
  case True
  with run have "b' = b" by (simp add: gbt_station_month_step_def)
  moreover have "\<not> (t < length time \<and> j < nc \<and> time ! t = month)" for t j
    using True by (auto simp: month_has_row)
  ultimately show ?thesis using shape by blast
next
  case False
  with run have b': "b' = assign_cells (\<lambda>t j. time ! t = month)
                  (\<lambda>t j. back_value m
                            (np_gamma_ppf lib (cum_probs_station lib (td ! t ! j))
                               (param_at (gamma_shape ds) (j, month))
                               (param_at (gamma_scale ds) (j, month)))) b"
    by (simp add: gbt_station_month_step_def split: if_splits)
  show ?thesis unfolding b'
    by (rule assign_cells_writer[OF shape]) (simp_all add: Q_def)
qed

lemma gbt_grid_month_step_writer:
  fixes ds :: gridded_gamma
  defines "Q \<equiv> \<lambda>lib td time m nc t j v. v = back_value m (np_gamma_ppf lib (cum_probs_grid lib (td ! t ! j))
                 (grid_param (gamma_shape ds) (time ! t) nc j) (grid_param (gamma_scale ds) (time ! t) nc j))"
  assumes run: "gbt_grid_month_step lib td time (Some ds) m nc b month = Inr b'"
    and shape: "frame_shape (length time) nc b"
  shows "frame_shape (length time) nc b' \<and>
        (\<forall>t<length time. \<forall>j<nc. (time ! t = month \<longrightarrow> Q lib td time m nc t j (b' ! t ! j))
                       \<and> (Q lib td time m nc t j (b ! t ! j) \<longrightarrow> Q lib td time m nc t j (b' ! t ! j)))"
proof (cases "\<not> list_ex (\<lambda>t. time ! t = month) [0..<length time] \<or> nc = 0")
  case True
  with run have "b' = b" by (simp add: gbt_grid_month_step_def)
  moreover have "\<not> (t < length time \<and> j < nc \<and> time ! t = month)" for t j
    using True by (auto simp: month_has_row)
  ultimately show ?thesis using shape by blast
next
  case False
  with run obtain a scale a_flat scale_flat where
    par: "gamma_shape ds month = Some a" "gamma_scale ds month = Some scale"
      "broadcast (concat a) nc = Some a_flat" "broadcast (concat scale) nc = Some scale_flat"
    and b': "b' = assign_cells (\<lambda>t j. time ! t = month)
                  (\<lambda>t j. back_value m
                            (np_gamma_ppf lib (cum_probs_grid lib (td ! t ! j))
                               (a_flat ! j) (scale_flat ! j))) b"
    by (auto simp: gbt_grid_month_step_def split: if_splits option.splits prod.splits)
  have g: "grid_param (gamma_shape ds) month nc j = a_flat ! j"
    "grid_param (gamma_scale ds) month nc j = scale_flat ! j" for j
    using par by (simp_all add: grid_param_def)
  show ?thesis unfolding b'
    by (rule assign_cells_writer[OF shape]) (auto simp: Q_def g)
qed

lemma gbt_grid_month_step_physical:
  assumes run: "gbt_grid_month_step lib td time gds m nc b month = Inr b'"
    and shape: "frame_shape (length time) nc b"
  shows "frame_shape (length time) nc b' \<and>
        (\<forall>t<length time. \<forall>j<nc. (time ! t = month \<longrightarrow> physical m (b' ! t ! j))
                       \<and> (physical m (b ! t ! j) \<longrightarrow> physical m (b' ! t ! j)))"
proof (cases "\<not> list_ex (\<lambda>t. time ! t = month) [0..<length time] \<or> nc = 0")
  case True
  with run have "b' = b" by (simp add: gbt_grid_month_step_def)
  moreover have "\<not> (t < length time \<and> j < nc \<and> time ! t = month)" for t j
    using True by (auto simp: month_has_row)
  ultimately show ?thesis using shape by blast
next
  case False
  with run obtain a_flat scale_flat where b': "b' = assign_cells (\<lambda>t j. time ! t = month)
                  (\<lambda>t j. back_value m
                            (np_gamma_ppf lib (cum_probs_grid lib (td ! t ! j))
                               (a_flat ! j) (scale_flat ! j))) b"
    by (auto simp: gbt_grid_month_step_def split: if_splits option.splits prod.splits)
  show ?thesis unfolding b'
    by (rule assign_cells_writer[OF shape]) (simp_all add: back_value_physical)
qed

lemma months_cover:
  assumes "\<forall>mo \<in> set time. 1 \<le> mo \<and> mo \<le> 12" and "t < length time"
  shows "\<exists>x \<in> set [1..<13]. time ! t = x"
proof -
  from assms(2) have "time ! t \<in> set time" by simp
  with assms(1) have "1 \<le> time ! t \<and> time ! t \<le> 12" by blast
  then show ?thesis by simp
qed

lemma nan_frame_nth: "t < nt \<Longrightarrow> j < nc \<Longrightarrow> nan_frame nt nc ! t ! j = None"
  by (simp add: nan_frame_def)

lemma gbt_station_cells:
  fixes ds :: station_gamma
  assumes fold: "efoldl (gbt_station_month_step lib td time ds m nc) (nan_frame (length time) nc) [1..<13] = Inr back"
    and months: "\<forall>mo \<in> set time. 1 \<le> mo \<and> mo \<le> 12"
  shows "frame_shape (length time) nc back \<and>
         (\<forall>t<length time. \<forall>j<nc. back ! t ! j =
            back_value m (np_gamma_ppf lib (cum_probs_station lib (td ! t ! j))
                 (param_at (gamma_shape ds) (j, time ! t)) (param_at (gamma_scale ds) (j, time ! t))))"
proof -
  let ?Q = "\<lambda>t j v. v = back_value m (np_gamma_ppf lib (cum_probs_station lib (td ! t ! j))
                 (param_at (gamma_shape ds) (j, time ! t)) (param_at (gamma_scale ds) (j, time ! t)))"
  have res: "frame_shape (length time) nc back \<and>
         (\<forall>t<length time. \<forall>j<nc. ((\<exists>x \<in> set [1..<13]. time ! t = x) \<or> ?Q t j (nan_frame (length time) nc ! t ! j))
              \<longrightarrow> ?Q t j (back ! t ! j))"
    by (rule efoldl_cells[where hit = "\<lambda>x t j. time ! t = x" and Q = ?Q,
          OF _ fold frame_shape_nan_frame])
      (rule gbt_station_month_step_writer)
  with months_cover[OF months] show ?thesis by blast
qed

lemma gbt_grid_cells:
  fixes ds :: gridded_gamma
  assumes fold: "efoldl (gbt_grid_month_step lib td time (Some ds) m nc) (nan_frame (length time) nc) [1..<13] = Inr bk"
    and months: "\<forall>mo \<in> set time. 1 \<le> mo \<and> mo \<le> 12"
  shows "frame_shape (length time) nc bk \<and>
         (\<forall>t<length time. \<forall>j<nc. bk ! t ! j =
            back_value m (np_gamma_ppf lib (cum_probs_grid lib (td ! t ! j))
              (grid_param (gamma_shape ds) (time ! t) nc j) (grid_param (gamma_scale ds) (time ! t) nc j)))"
proof -
  let ?Q = "\<lambda>t j v. v = back_value m (np_gamma_ppf lib (cum_probs_grid lib (td ! t ! j))
              (grid_param (gamma_shape ds) (time ! t) nc j) (grid_param (gamma_scale ds) (time ! t) nc j))"
  have res: "frame_shape (length time) nc bk \<and>
         (\<forall>t<length time. \<forall>j<nc. ((\<exists>x \<in> set [1..<13]. time ! t = x) \<or> ?Q t j (nan_frame (length time) nc ! t ! j))
              \<longrightarrow> ?Q t j (bk ! t ! j))"
    by (rule efoldl_cells[where hit = "\<lambda>x t j. time ! t = x" and Q = ?Q,
          OF _ fold frame_shape_nan_frame])
      (rule gbt_grid_month_step_writer)
  with months_cover[OF months] show ?thesis by blast
qed

lemma gbt_grid_physical:
  assumes fold: "efoldl (gbt_grid_month_step lib td time gds m nc) (nan_frame (length time) nc) [1..<13] = Inr bk"
    and months: "\<forall>mo \<in> set time. 1 \<le> mo \<and> mo \<le> 12"
  shows "frame_shape (length time) nc bk \<and> (\<forall>t<length time. \<forall>j<nc. physical m (bk ! t ! j))"
proof -
  have res: "frame_shape (length time) nc bk \<and>
         (\<forall>t<length time. \<forall>j<nc. ((\<exists>x \<in> set [1..<13]. time ! t = x) \<or> physical m (nan_frame (length time) nc ! t ! j))
              \<longrightarrow> physical m (bk ! t ! j))"
    by (rule efoldl_cells[where hit = "\<lambda>x t j. time ! t = x" and Q = "\<lambda>t j. physical m",
          OF _ fold frame_shape_nan_frame])
      (rule gbt_grid_month_step_physical)
  with months_cover[OF months] show ?thesis by blast
qed

text \<open>Without the gridded dataset no pass that has a row returns.\<close>

lemma gbt_grid_needs_dataset:
  assumes fold: "efoldl (gbt_grid_month_step lib td time None m nc) b ms = Inr bk"
    and "mo \<in> set ms" and "t < length time" and "time ! t = mo" and "0 < nc"
  shows False
  using assms
proof (induction ms arbitrary: b)
  case Nil
  then show ?case by simp
next
  case (Cons x xs)
  from Cons.prems(1) obtain b1 where b1: "gbt_grid_month_step lib td time None m nc b x = Inr b1"
    "efoldl (gbt_grid_month_step lib td time None m nc) b1 xs = Inr bk"
    by (auto split: sum.splits)
  show ?case
  proof (cases "x = mo")
    case True
    have "list_ex (\<lambda>t. time ! t = x) [0..<length time]"
      using Cons.prems(3,4) True by (auto simp: month_has_row)
    with b1(1) Cons.prems(5) show False by (simp add: gbt_grid_month_step_def)
  next
    case False
    with Cons.prems(2) have "mo \<in> set xs" by simp
    from Cons.IH[OF b1(2) this Cons.prems(3,4,5)] show False .
  qed
qed

lemma data_frame_Arr2: "data_frame (Arr2 stations) time = Inr cols \<Longrightarrow> cols = stations"
  by (auto simp: data_frame_def split: if_splits)

lemma grid_frame_cols: "grid_frame g time = Inr cols \<Longrightarrow> cols = concat g"
  by (auto simp: grid_frame_def Let_def split: list.splits if_splits)

lemma physical_iff: "physical m v \<longleftrightarrow> (\<exists>x. v = Some x \<and> (x = 0 \<or> m \<le> x))"
  by (cases v) (simp_all add: physical_def)

lemma physical_frame:
  assumes "frame_shape nt nc back" and "\<forall>t<nt. \<forall>j<nc. physical m (back ! t ! j)"
  shows "\<forall>v \<in> set (elems (Arr2 back)). physical m v"
  using frame_cells[OF assms(1)] assms(2) by fastforce

lemma physical_grid:
  assumes shape: "frame_shape nt (length (concat g)) back"
    and cells: "\<forall>t<nt. \<forall>j<length (concat g). physical m (back ! t ! j)"
    and rect: "list_all (\<lambda>row. length row = length (hd g)) g"
  shows "\<forall>v \<in> set (elems (Arr3 (to_grid (length g) (length (hd g)) nt back))). physical m v"
proof
  fix v assume "v \<in> set (elems (Arr3 (to_grid (length g) (length (hd g)) nt back)))"
  then obtain r c t where rc: "r < length g" "c < length (hd g)" "t < nt"
    "v = back ! t ! (r * length (hd g) + c)"
    using to_grid_cells[of v "length g" "length (hd g)" nt "back"] by auto
  have "r * length (hd g) + c < length (concat g)"
    using grid_index[OF rc(1,2)] length_concat_rect[OF rect] by simp
  with cells rc show "physical m v" by simp
qed

text \<open>
  C7. With timestamps whose months are 1 to 12 and a rectangular grid, every cell of an
  array returned by the inverse quantile-normal transform or by the inverse gamma
  transform is a number, never NaN, that is 0 or at least \<open>min_est_value\<close>, hence not
  inside the open interval from 0 to \<open>min_est_value\<close>: a reconstructed value below
  \<open>min_est_value\<close> is made NaN and every NaN is made 0.
\<close>

theorem back_transforms_leave_no_small_values:
  assumes months: "\<forall>mo \<in> set time. 1 \<le> mo \<and> mo \<le> 12"
    and rect: "\<forall>g. data = Arr3 g \<longrightarrow> list_all (\<lambda>row. length row = length (hd g)) g"
  shows "(\<forall>out. inverse_normal_quantile_transform lib data time cdfs settings = Inr out \<longrightarrow>
            (\<forall>v \<in> set (elems out). \<exists>x. v = Some x
                \<and> (x = 0 \<or> get_default 0.01 (min_est_value settings) \<le> x)
                \<and> \<not> (0 < x \<and> x < get_default 0.01 (min_est_value settings))))
       \<and> (\<forall>out. gamma_back_transform lib data time settings gamma_station_ds gamma_gridded_ds = Inr out \<longrightarrow>
            (\<forall>v \<in> set (elems out). \<exists>x. v = Some x
                \<and> (x = 0 \<or> get_default 0.01 (min_est_value settings) \<le> x)
                \<and> \<not> (0 < x \<and> x < get_default 0.01 (min_est_value settings))))
       \<and> (\<forall>m v. back_value m v = (case v of None \<Rightarrow> Some 0
                                   | Some x \<Rightarrow> if x < m then Some 0 else Some x))"
proof -
  let ?m = "get_default 0.01 (min_est_value settings)"
  have strong: "\<exists>x. v = Some x \<and> (x = 0 \<or> ?m \<le> x) \<and> \<not> (0 < x \<and> x < ?m)" if "physical ?m v" for v
    using that by (auto simp: physical_iff)
  have ecdf: "\<forall>v \<in> set (elems out). physical ?m v"
    if run: "inverse_normal_quantile_transform lib data time cdfs settings = Inr out" for out
  proof (cases data)
    case (Arr1 xs)
    with run show ?thesis by (simp add: inverse_normal_quantile_transform_def)
  next
    case (Arr2 stations)
    with run obtain cols bk where cols: "data_frame data time = Inr cols"
      and loop: "inqt_loop lib time cdfs settings cols = Inr bk" and out: "out = Arr2 bk"
      by (auto simp: inverse_normal_quantile_transform_def split: sum.splits)
    from inqt_loop_physical[OF loop months] show ?thesis
      unfolding out by (intro physical_frame) auto
  next
    case (Arr3 g)
    with run obtain cols bk where cols: "grid_frame g time = Inr cols"
      and loop: "inqt_loop lib time cdfs settings cols = Inr bk"
      and out: "out = Arr3 (to_grid (length g) (length (hd g)) (length time) bk)"
      by (auto simp: inverse_normal_quantile_transform_def split: sum.splits)
    have c: "cols = concat g" using cols by (rule grid_frame_cols)
    have r: "list_all (\<lambda>row. length row = length (hd g)) g" using rect Arr3 by simp
    from inqt_loop_physical[OF loop months] show ?thesis
      unfolding out c by (intro physical_grid r) auto
  qed
  have gam: "\<forall>v \<in> set (elems out). physical ?m v"
    if run: "gamma_back_transform lib data time settings gamma_station_ds gamma_gridded_ds = Inr out" for out
  proof (cases data)
    case (Arr1 xs)
    with run show ?thesis by (simp add: gamma_back_transform_def)
  next
    case (Arr2 stations)
    with run obtain cols bk where cols: "data_frame data time = Inr cols"
      and fold: "efoldl (gbt_station_month_step lib (frame_of_columns (length time) cols)
                                  time gamma_station_ds ?m (length cols))
                          (nan_frame (length time) (length cols)) [1..<13] = Inr bk"
      and out: "out = Arr2 bk"
      by (auto simp: gamma_back_transform_def Let_def split: sum.splits)
    from gbt_station_cells[OF fold months]
    have "frame_shape (length time) (length cols) bk"
      "\<forall>t<length time. \<forall>j<length cols. physical ?m (bk ! t ! j)"
      by (simp_all add: back_value_physical)
    then show ?thesis unfolding out by (rule physical_frame)
  next
    case (Arr3 g)
    with run obtain cols bk where cols: "grid_frame g time = Inr cols"
      and fold: "efoldl (gbt_grid_month_step lib (frame_of_columns (length time) cols)
                                  time gamma_gridded_ds ?m (length cols))
                          (nan_frame (length time) (length cols)) [1..<13] = Inr bk"
      and out: "out = Arr3 (to_grid (length g) (length (hd g)) (length time) bk)"
      by (auto simp: gamma_back_transform_def Let_def split: sum.splits)
    have c: "cols = concat g" using cols by (rule grid_frame_cols)
    have r: "list_all (\<lambda>row. length row = length (hd g)) g" using rect Arr3 by simp
    from gbt_grid_physical[OF fold months]
    have "frame_shape (length time) (length (concat g)) bk"
      "\<forall>t<length time. \<forall>j<length (concat g). physical ?m (bk ! t ! j)"
      unfolding c by simp_all
    then show ?thesis unfolding out by (intro physical_grid r)
  qed
  have bv: "back_value m v = (case v of None \<Rightarrow> Some 0 | Some x \<Rightarrow> if x < m then Some 0 else Some x)" for m v
    by (simp add: back_value_def filter_small_def nan_to_num_def split: option.splits)
  show ?thesis using ecdf gam strong bv by blast
qed

subsection \<open>Evaluation of examples\<close>

lemmas run_defs = inverse_normal_quantile_transform_def gamma_back_transform_def data_frame_def grid_frame_def
  inqt_loop_def inqt_month_step_def inqt_pooled_step_def inqt_station_step_def inqt_values_def
  gbt_station_month_step_def gbt_grid_month_step_def
  frame_of_columns_def nan_frame_def assign_cells_def to_grid_def
  pooled_cdf_def station_cdf_def station_table_def get_default_def
  back_value_def filter_small_def nan_to_num_def value_interp_def interp_extrapolate_def
  cum_probs_station_def cum_probs_grid_def np_gamma_ppf_def np_clip_def param_at_def broadcast_def
  zeros_fit_def no_rows_table_def
  example_scipy_def empty_settings_def Let_def

lemma months12: "[1..<13] = [1,2,3,4,5,6,7,8,9,10,11,12::nat]"
  by (simp add: upt_rec)

lemma float_max_not_small: "\<not> float_max * 100 < 1" "\<not> float_max < 1 / 100"
  using float_max_ge_1 by simp_all

theorem back_transforms_leave_no_small_values_witness:
  "inverse_normal_quantile_transform example_scipy (Arr2 [[Some (- 9), Some 9]]) [1, 2]
         (PooledCdfs (\<lambda>m. Some \<lparr>Value = [2, 4], CDF = [1 / 2, 1]\<rparr>)) empty_settings
     = Inr (Arr2 [[Some 0], [Some 4]])
   \<and> gamma_back_transform example_scipy (Arr3 [[[Some (- 9), Some 9]]]) [1, 2] empty_settings
         \<lparr>gamma_shape = (\<lambda>k. Some (Some 2)), gamma_scale = (\<lambda>k. Some (Some 3))\<rparr>
         (Some \<lparr>gamma_shape = (\<lambda>k. Some [[Some 2]]), gamma_scale = (\<lambda>k. Some [[Some 3]])\<rparr>)
     = Inr (Arr3 [[[Some 0, Some (299997 / 100000)]]])
   \<and> list_all (physical 0.01) (elems (Arr2 [[Some 0], [Some 4]]))
   \<and> list_all (physical 0.01) (elems (Arr3 [[[Some 0, Some (299997 / 100000)]]]))"
proof -
  have months: "\<forall>mo \<in> set [1, 2::nat]. 1 \<le> mo \<and> mo \<le> 12" by simp
  have r2: "\<forall>g. Arr2 [[Some (- 9), Some 9]] = Arr3 g \<longrightarrow> list_all (\<lambda>row. length row = length (hd g)) g"
    by simp
  have r3: "\<forall>g. Arr3 [[[Some (- 9), Some 9]]] = Arr3 g \<longrightarrow> list_all (\<lambda>row. length row = length (hd g)) g"
    by simp
  have e1: "inverse_normal_quantile_transform example_scipy (Arr2 [[Some (- 9), Some 9]]) [1, 2]
         (PooledCdfs (\<lambda>m. Some \<lparr>Value = [2, 4], CDF = [1 / 2, 1]\<rparr>)) empty_settings
     = Inr (Arr2 [[Some 0], [Some 4]])"
    by (simp add: run_defs months12 enumerate_eq_zip upt_rec)
  have e3: "gamma_back_transform example_scipy (Arr3 [[[Some (- 9), Some 9]]]) [1, 2] empty_settings
         \<lparr>gamma_shape = (\<lambda>k. Some (Some 2)), gamma_scale = (\<lambda>k. Some (Some 3))\<rparr>
         (Some \<lparr>gamma_shape = (\<lambda>k. Some [[Some 2]]), gamma_scale = (\<lambda>k. Some [[Some 3]])\<rparr>)
     = Inr (Arr3 [[[Some 0, Some (299997 / 100000)]]])"
    by (simp add: run_defs months12 enumerate_eq_zip upt_rec)
  have m: "get_default 0.01 (min_est_value empty_settings) = 0.01"
    by (simp add: get_default_def empty_settings_def)
  from back_transforms_leave_no_small_values[OF months r2, of example_scipy _ empty_settings] e1
  have p1: "\<forall>v \<in> set (elems (Arr2 [[Some 0], [Some 4]])). physical 0.01 v"
    unfolding m physical_iff by blast
  from back_transforms_leave_no_small_values[OF months r3, of example_scipy _ empty_settings] e3
  have p3: "\<forall>v \<in> set (elems (Arr3 [[[Some 0, Some (299997 / 100000)]]])). physical 0.01 v"
    unfolding m physical_iff by blast
  show ?thesis using e1 e3 p1 p3 by (simp only: list_all_iff simp_thms)
qed

lemma concat_rect_nth:
  "list_all (\<lambda>row. length row = nc) g \<Longrightarrow> r < length g \<Longrightarrow> c < nc
     \<Longrightarrow> concat g ! (r * nc + c) = g ! r ! c"
proof (induction g arbitrary: r)
  case Nil
  then show ?case by simp
next
  case (Cons row g)
  show ?case
  proof (cases r)
    case 0
    with Cons.prems show ?thesis by (simp add: nth_append)
  next
    case (Suc r')
    with Cons.prems have "concat g ! (r' * nc + c) = g ! r' ! c"
      by (intro Cons.IH) simp_all
    with Suc Cons.prems show ?thesis by (simp add: nth_append)
  qed
qed

lemma to_grid_nth:
  "r < nr \<Longrightarrow> c < nc \<Longrightarrow> t < nt \<Longrightarrow> to_grid nr nc nt fr ! r ! c ! t = fr ! t ! (r * nc + c)"
  by (simp add: to_grid_def)

text \<open>
  C10. On the station path every returned cell is the filtered gamma quantile at the
  probability that the normal distribution function gives, unclipped; on the grid path
  it is the filtered gamma quantile at that probability clipped to at most 0.99999.
  So a z-score whose probability exceeds 0.99999 reaches the gamma quantile unchanged on
  the station path, and as 0.99999 on the grid path.
\<close>

theorem gamma_clip_only_on_grid:
  assumes months: "\<forall>mo \<in> set time. 1 \<le> mo \<and> mo \<le> 12"
  shows "(\<forall>out. gamma_back_transform lib (Arr2 stations) time settings gamma_station_ds gamma_gridded_ds
               = Inr (Arr2 out) \<longrightarrow>
            (\<forall>t<length time. \<forall>j<length stations.
               out ! t ! j =
                 back_value (get_default 0.01 (min_est_value settings))
                   (np_gamma_ppf lib (cum_probs_station lib (stations ! j ! t))
                      (param_at (gamma_shape gamma_station_ds) (j, time ! t))
                      (param_at (gamma_scale gamma_station_ds) (j, time ! t)))))
       \<and> (\<forall>out. gamma_back_transform lib (Arr3 g) time settings gamma_station_ds gamma_gridded_ds
               = Inr (Arr3 out) \<longrightarrow>
            list_all (\<lambda>row. length row = length (hd g)) g \<longrightarrow>
            (\<forall>r<length g. \<forall>c<length (hd g). \<forall>t<length time. \<exists>ds.
               gamma_gridded_ds = Some ds \<and>
               out ! r ! c ! t =
                 back_value (get_default 0.01 (min_est_value settings))
                   (np_gamma_ppf lib (cum_probs_grid lib (g ! r ! c ! t))
                      (grid_param (gamma_shape ds) (time ! t) (length (concat g))
                         (r * length (hd g) + c))
                      (grid_param (gamma_scale ds) (time ! t) (length (concat g))
                         (r * length (hd g) + c)))))
       \<and> (\<forall>z. cum_probs_station lib (Some z) = norm_cdf lib z)
       \<and> (\<forall>v q. cum_probs_grid lib v = Some q \<longrightarrow> q \<le> 0.99999)
       \<and> (\<forall>z p. norm_cdf lib z = Some p \<longrightarrow> 0.99999 < p \<longrightarrow>
              cum_probs_station lib (Some z) = Some p \<and> cum_probs_grid lib (Some z) = Some 0.99999)"
proof -
  let ?m = "get_default 0.01 (min_est_value settings)"
  have two: "out ! t ! j = back_value ?m
                   (np_gamma_ppf lib (cum_probs_station lib (stations ! j ! t))
                      (param_at (gamma_shape gamma_station_ds) (j, time ! t))
                      (param_at (gamma_scale gamma_station_ds) (j, time ! t)))"
    if run: "gamma_back_transform lib (Arr2 stations) time settings gamma_station_ds gamma_gridded_ds = Inr (Arr2 out)"
      and t: "t < length time" and j: "j < length stations" for out t j
  proof -
    from run obtain cols where cols: "data_frame (Arr2 stations) time = Inr cols"
      and fold: "efoldl (gbt_station_month_step lib (frame_of_columns (length time) cols)
                                  time gamma_station_ds ?m (length cols))
                          (nan_frame (length time) (length cols)) [1..<13] = Inr out"
      by (auto simp: gamma_back_transform_def Let_def split: sum.splits)
    have c: "cols = stations" using cols by (rule data_frame_Arr2)
    from gbt_station_cells[OF fold months] t j
    show ?thesis unfolding c by (simp add: frame_of_columns_nth)
  qed
  have three: "\<exists>ds. gamma_gridded_ds = Some ds \<and>
        out ! r ! c ! t = back_value ?m (np_gamma_ppf lib (cum_probs_grid lib (g ! r ! c ! t))
             (grid_param (gamma_shape ds) (time ! t) (length (concat g)) (r * length (hd g) + c))
             (grid_param (gamma_scale ds) (time ! t) (length (concat g)) (r * length (hd g) + c)))"
    if run: "gamma_back_transform lib (Arr3 g) time settings gamma_station_ds gamma_gridded_ds = Inr (Arr3 out)"
      and rect: "list_all (\<lambda>row. length row = length (hd g)) g"
      and r: "r < length g" and c: "c < length (hd g)" and t: "t < length time" for out r c t
  proof -
    from run obtain cols bk where cols: "grid_frame g time = Inr cols"
      and fold: "efoldl (gbt_grid_month_step lib (frame_of_columns (length time) cols)
                                  time gamma_gridded_ds ?m (length cols))
                          (nan_frame (length time) (length cols)) [1..<13] = Inr bk"
      and out: "out = to_grid (length g) (length (hd g)) (length time) bk"
      by (auto simp: gamma_back_transform_def Let_def split: sum.splits)
    have cc: "cols = concat g" using cols by (rule grid_frame_cols)
    let ?i = "r * length (hd g) + c"
    have i: "?i < length (concat g)"
      using grid_index[OF r c] length_concat_rect[OF rect] by simp
    have mo: "time ! t \<in> set [1..<13]" using months_cover[OF months t] by auto
    obtain ds where ds: "gamma_gridded_ds = Some ds"
    proof (cases gamma_gridded_ds)
      case None
      have "0 < length cols" using i unfolding cc by (rule le_less_trans[OF le0])
      from gbt_grid_needs_dataset[OF fold[unfolded None] mo t refl this] show ?thesis ..
    next
      case (Some ds)
      then show ?thesis using that by simp
    qed
    have cell: "frame_of_columns (length time) (concat g) ! t ! ?i = g ! r ! c ! t"
      using t i by (simp add: frame_of_columns_nth concat_rect_nth[OF rect r c])
    from gbt_grid_cells[OF fold[unfolded ds] months] t i
    have "bk ! t ! ?i = back_value ?m (np_gamma_ppf lib (cum_probs_grid lib (g ! r ! c ! t))
             (grid_param (gamma_shape ds) (time ! t) (length (concat g)) ?i)
             (grid_param (gamma_scale ds) (time ! t) (length (concat g)) ?i))"
      unfolding cc cell[symmetric] by blast
    then show ?thesis unfolding out using r c t ds by (simp add: to_grid_nth)
  qed
  have st: "cum_probs_station lib (Some z) = norm_cdf lib z" for z
    by (simp add: cum_probs_station_def)
  have gr: "q \<le> 0.99999" if "cum_probs_grid lib v = Some q" for v q
    using that by (auto simp: cum_probs_grid_def np_clip_def)
  have both: "cum_probs_station lib (Some z) = Some p \<and> cum_probs_grid lib (Some z) = Some 0.99999"
    if "norm_cdf lib z = Some p" "0.99999 < p" for z p
    using that by (simp add: cum_probs_station_def cum_probs_grid_def np_clip_def)
  show ?thesis using two three st gr both by blast
qed

theorem gamma_clip_only_on_grid_witness:
  "gamma_back_transform example_scipy (Arr2 [[Some (- 9), Some 9]]) [1, 2] empty_settings
         \<lparr>gamma_shape = (\<lambda>k. Some (Some 2)), gamma_scale = (\<lambda>k. Some (Some 3))\<rparr> None
     = Inr (Arr2 [[Some 0], [Some float_max]])
   \<and> gamma_back_transform example_scipy (Arr3 [[[Some (- 9), Some 9]]]) [1, 2] empty_settings
         \<lparr>gamma_shape = (\<lambda>k. Some (Some 2)), gamma_scale = (\<lambda>k. Some (Some 3))\<rparr>
         (Some \<lparr>gamma_shape = (\<lambda>k. Some [[Some 2]]), gamma_scale = (\<lambda>k. Some [[Some 3]])\<rparr>)
     = Inr (Arr3 [[[Some 0, Some (299997 / 100000)]]])
   \<and> cum_probs_station example_scipy (Some 9) = Some 1
   \<and> cum_probs_grid example_scipy (Some 9) = Some 0.99999"
proof -
  have months: "\<forall>mo \<in> set [1, 2::nat]. 1 \<le> mo \<and> mo \<le> 12" by simp
  have cdf: "norm_cdf example_scipy 9 = Some 1" by (simp add: example_scipy_def)
  from gamma_clip_only_on_grid[OF months, of example_scipy]
  have "cum_probs_station example_scipy (Some 9) = Some 1 \<and> cum_probs_grid example_scipy (Some 9) = Some 0.99999"
    using cdf by simp
  then show ?thesis
    by (simp add: run_defs months12 enumerate_eq_zip upt_rec float_max_not_small)
qed

section \<open>Properties of the dispatcher\<close>

text \<open>
  C8. A method tag other than \<open>boxcox\<close>, \<open>ecdf\<close> and \<open>gamma_monthly\<close>, and under one of
  these three a mode tag other than \<open>transform\<close> and \<open>back_transform\<close>, ends in
  \<open>sys.exit()\<close>: the dispatcher returns no array and raises no other error.
\<close>

theorem unknown_tags_exit:
  "(method \<notin> {''boxcox'', ''ecdf'', ''gamma_monthly''} \<longrightarrow>
      data_transformation lib data method settings mode ts cdfs gamma_stations_ds gamma_gridded_ds
        = Inl SystemExit)
   \<and> (method \<in> {''boxcox'', ''ecdf'', ''gamma_monthly''} \<and> mode \<notin> {''transform'', ''back_transform''} \<longrightarrow>
      data_transformation lib data method settings mode ts cdfs gamma_stations_ds gamma_gridded_ds
        = Inl SystemExit)"
  by (auto simp: data_transformation_def)

theorem unknown_tags_exit_witness:
  "data_transformation example_scipy (Arr1 [Some 1]) ''pca'' empty_settings ''transform'' [1]
       (PooledCdfs Map.empty) \<lparr>gamma_shape = Map.empty, gamma_scale = Map.empty\<rparr> None = Inl SystemExit
   \<and> data_transformation example_scipy (Arr1 [Some 1]) ''ecdf'' empty_settings ''forward'' [1]
       (PooledCdfs Map.empty) \<lparr>gamma_shape = Map.empty, gamma_scale = Map.empty\<rparr> None = Inl SystemExit"
  using unknown_tags_exit [of "''pca''" example_scipy "Arr1 [Some 1]" empty_settings "''transform''" "[1]"
      "PooledCdfs Map.empty" "\<lparr>gamma_shape = Map.empty, gamma_scale = Map.empty\<rparr>" None]
    unknown_tags_exit [of "''ecdf''" example_scipy "Arr1 [Some 1]" empty_settings "''forward''" "[1]"
      "PooledCdfs Map.empty" "\<lparr>gamma_shape = Map.empty, gamma_scale = Map.empty\<rparr>" None]
  by simp

end
